theory Spec2Isabelle
  imports Main "HOL-Library.Word"
begin

section \<open>Data of the libraries that the core reads and writes\<close>

text \<open>
  The core (main.go, webrtc/peer/connection.go) drives pion's peer-connection objects
  through a handful of calls. A peer connection is modelled by what those calls observe:
  its connection state, its senders and receivers (each with the track it carries, or
  none for a nil \<^verbatim>\<open>Track()\<close>), and the descriptions installed so far.
\<close>

datatype webrtc_PeerConnectionState =
    PeerConnectionStateNew
  | PeerConnectionStateConnecting
  | PeerConnectionStateConnected
  | PeerConnectionStateDisconnected
  | PeerConnectionStateFailed
  | PeerConnectionStateClosed

text \<open>A forwarding track (\<^verbatim>\<open>*webrtc.TrackLocalStaticRTP\<close>) and an inbound track
  (\<^verbatim>\<open>*webrtc.TrackRemote\<close>), by the getters the core calls.\<close>

record TrackLocalStaticRTP =
  tl_ID :: string
  tl_StreamID :: string

record TrackRemote =
  tr_ID :: string
  tr_StreamID :: string
  tr_SSRC :: "32 word"

text \<open>A session description: its type and, for the SDP text, the identifiers of the
  tracks it announces.\<close>

record SessionDescription =
  sd_Type :: string
  sd_SDP :: "string list"

record PeerConnection =
  ConnectionState :: webrtc_PeerConnectionState
  GetSenders :: "TrackLocalStaticRTP option list"
  GetReceivers :: "TrackRemote option list"
  LocalDescription :: "SessionDescription option"
  RemoteDescription :: "SessionDescription option"
  ICECandidates :: "string list"

record PictureLossIndication =
  SenderSSRC :: "32 word"
  MediaSSRC :: "32 word"

text \<open>The values handed to \<^verbatim>\<open>json.Marshal\<close>: strings, lists, maps with string keys, and
  \<^verbatim>\<open>json.RawMessage\<close> (a text that is already JSON).\<close>

datatype json =
    JString string
  | JArray "json list"
  | JObject "(string \<times> json) list"
  | JRaw string

text \<open>ws.WebsocketMessage.\<close>

record WebsocketMessage =
  Event :: string
  Data :: string

text \<open>rtp.Packet with its embedded rtp.Header.\<close>

record Packet =
  Version :: "8 word"
  Padding :: bool
  Extension :: bool
  Marker :: bool
  PayloadType :: "8 word"
  SequenceNumber :: "16 word"
  Timestamp :: "32 word"
  SSRC :: "32 word"
  CSRC :: "32 word list"
  ExtensionProfile :: "16 word"
  Extensions :: "(8 word \<times> 8 word list) list"
  Payload :: "8 word list"
  PaddingSize :: "8 word"

text \<open>The join payload of main.go.\<close>

record joinData =
  jd_RoomID :: string
  jd_Name :: string

text \<open>
  The decoders and encoders of \<^verbatim>\<open>encoding/json\<close> and \<^verbatim>\<open>pion/rtp\<close> are taken as they
  are: functions about which nothing is assumed. \<^verbatim>\<open>json.Unmarshal\<close> into the message and
  \<^verbatim>\<open>Packet.Unmarshal\<close> write into a value that is reused from one call to the next, so
  both take the previous value.
\<close>

record library =
  marshal :: "json \<Rightarrow> string"
  unmarshal_message :: "8 word list \<Rightarrow> WebsocketMessage \<Rightarrow> WebsocketMessage option"
  unmarshal_join :: "string \<Rightarrow> joinData option"
  unmarshal_candidate :: "string \<Rightarrow> string option"
  unmarshal_answer :: "string \<Rightarrow> SessionDescription option"
  rtp_Unmarshal :: "8 word list \<Rightarrow> Packet \<Rightarrow> Packet option"

section \<open>Rooms and the world\<close>

text \<open>peer.PeerConnectionState: the peer record of a room. \<^verbatim>\<open>PeerConnection\<close> and
  \<^verbatim>\<open>Websocket\<close> are pointers, here addresses.\<close>

record PeerConnectionState =
  PeerConnection :: nat
  Websocket :: nat
  Name :: string

text \<open>A Go map with string keys, as an association list: \<^const>\<open>map_of\<close> looks a key up,
  and the order of the list is the order in which a \<^verbatim>\<open>range\<close> loop visits the entries.
  \<open>put\<close> is \<^verbatim>\<open>m[k] = v\<close>, \<open>delete\<close> is \<^verbatim>\<open>delete(m, k)\<close>.\<close>

type_synonym 'v gomap = "(string \<times> 'v) list"

definition put :: "string \<Rightarrow> 'v \<Rightarrow> 'v gomap \<Rightarrow> 'v gomap" where
  "put k v m = (if k \<in> fst ` set m then map (\<lambda>(k', v'). if k' = k then (k', v) else (k', v')) m
                else m @ [(k, v)])"

definition delete :: "string \<Rightarrow> 'v gomap \<Rightarrow> 'v gomap" where
  "delete k m = filter (\<lambda>(k', v'). k' \<noteq> k) m"

text \<open>RoomState of main.go. Its \<^verbatim>\<open>Lock\<close> is kept in the world, under the room's address.\<close>

record RoomState =
  PeerConnections :: "PeerConnectionState list"
  TrackLocals :: "TrackLocalStaticRTP gomap"
  TrackNames :: "string gomap"
  StreamNames :: "string gomap"

text \<open>
  A slice of peer records passed by value, as \<^verbatim>\<open>SignalPeerConnections\<close> receives
  \<^verbatim>\<open>peerConnections\<close>: the function owns a copy of the header (here the length
  \<open>sl_len\<close>) and shares the array (\<open>sl_array\<close>, the cells of the caller's slice) with
  the caller, whose own header keeps its length.
\<close>

record slice =
  sl_array :: "PeerConnectionState list"
  sl_len :: nat

text \<open>A goroutine that sleeps \<open>rs_delay\<close> seconds and then calls
  \<^verbatim>\<open>SignalPeerConnections\<close> with this lock and slice (and the maps of the same call).\<close>

record resync =
  rs_delay :: nat
  rs_listLock :: nat
  rs_peerConnections :: slice

text \<open>What leaves the process, in order: lock operations, RTCP and RTP packets and
  websocket messages handed to the transport, each with whether the write succeeded.\<close>

datatype event =
    EvLock nat
  | EvUnlock nat
  | EvWriteRTCP nat "PictureLossIndication list" bool
  | EvWriteJSON nat WebsocketMessage bool
  | EvWriteRTP TrackLocalStaticRTP Packet bool
  | EvClose nat

text \<open>
  The world: the heap of peer connections, the room locks, the registry \<^verbatim>\<open>rooms\<close> with
  the heap of room objects, the sleeping goroutines and the trace. Every library call
  that can return an error asks \<open>fault\<close> at the current \<open>ticks\<close> whether it fails, and
  advances \<open>ticks\<close>; a theorem for every \<open>fault\<close> holds for every pattern of library
  errors. The registry lock \<^verbatim>\<open>roomsLock\<close> is taken and released inside single steps on
  \<open>rooms\<close> and never held across a call; these steps are atomic here.
\<close>

record world =
  pcs :: "nat \<Rightarrow> PeerConnection"
  locks :: "nat \<Rightarrow> bool"
  trace :: "event list"
  ticks :: nat
  fault :: "nat \<Rightarrow> bool"
  lib :: library
  rooms :: "string \<rightharpoonup> nat"
  room_heap :: "nat \<Rightarrow> RoomState"
  next_room :: nat
  next_pc :: nat
  timers :: "resync list"

definition lib_call :: "world \<Rightarrow> bool \<times> world" where
  "lib_call w = (fault w (ticks w), w\<lparr>ticks := Suc (ticks w)\<rparr>)"

text \<open>sync.RWMutex: \<^verbatim>\<open>Lock\<close> and \<^verbatim>\<open>RLock\<close> on a write-held lock never return (\<open>None\<close>);
  there is no other thread in the model to release it.\<close>

definition Lock :: "nat \<Rightarrow> world \<Rightarrow> world option" where
  "Lock l w = (if locks w l then None
               else Some (w\<lparr>locks := (locks w)(l := True), trace := trace w @ [EvLock l]\<rparr>))"

definition Unlock :: "nat \<Rightarrow> world \<Rightarrow> world" where
  "Unlock l w = w\<lparr>locks := (locks w)(l := False), trace := trace w @ [EvUnlock l]\<rparr>"

definition RLock :: "nat \<Rightarrow> world \<Rightarrow> world option" where
  "RLock l w = (if locks w l then None else Some w)"

subsection \<open>The library calls\<close>

definition set_pc :: "nat \<Rightarrow> PeerConnection \<Rightarrow> world \<Rightarrow> world" where
  "set_pc pc v w = w\<lparr>pcs := (pcs w)(pc := v)\<rparr>"

text \<open>\<^verbatim>\<open>WriteRTCP\<close>: the packets are handed over, the result says whether it failed.\<close>

definition WriteRTCP :: "nat \<Rightarrow> PictureLossIndication list \<Rightarrow> world \<Rightarrow> bool \<times> world" where
  "WriteRTCP pc pkts w =
     (case lib_call w of (err, w') \<Rightarrow>
        (err, w'\<lparr>trace := trace w' @ [EvWriteRTCP pc pkts (\<not> err)]\<rparr>))"

text \<open>\<^verbatim>\<open>RemoveTrack(sender)\<close>: the sender (the \<open>j\<close>-th of the connection) stays and
  carries no track afterwards.\<close>

definition RemoveTrack :: "nat \<Rightarrow> nat \<Rightarrow> world \<Rightarrow> bool \<times> world" where
  "RemoveTrack pc j w =
     (case lib_call w of (err, w') \<Rightarrow>
        if err then (True, w')
        else (False, set_pc pc ((pcs w' pc)\<lparr>GetSenders := (GetSenders (pcs w' pc))[j := None]\<rparr>) w'))"

text \<open>\<^verbatim>\<open>AddTrack(track)\<close>: a sender carrying the track is added.\<close>

definition AddTrack :: "nat \<Rightarrow> TrackLocalStaticRTP \<Rightarrow> world \<Rightarrow> bool \<times> world" where
  "AddTrack pc t w =
     (case lib_call w of (err, w') \<Rightarrow>
        if err then (True, w')
        else (False, set_pc pc ((pcs w' pc)\<lparr>GetSenders := GetSenders (pcs w' pc) @ [Some t]\<rparr>) w'))"

text \<open>\<^verbatim>\<open>CreateOffer(nil)\<close>: an offer announcing the tracks the connection sends now.\<close>

definition sender_ids :: "TrackLocalStaticRTP option list \<Rightarrow> string list" where
  "sender_ids ss = map tl_ID (List.map_filter id ss)"

definition CreateOffer :: "nat \<Rightarrow> world \<Rightarrow> SessionDescription option \<times> world" where
  "CreateOffer pc w =
     (case lib_call w of (err, w') \<Rightarrow>
        if err then (None, w')
        else (Some \<lparr>sd_Type = ''offer'', sd_SDP = sender_ids (GetSenders (pcs w' pc))\<rparr>, w'))"

definition SetLocalDescription :: "nat \<Rightarrow> SessionDescription \<Rightarrow> world \<Rightarrow> bool \<times> world" where
  "SetLocalDescription pc d w =
     (case lib_call w of (err, w') \<Rightarrow>
        if err then (True, w')
        else (False, set_pc pc ((pcs w' pc)\<lparr>LocalDescription := Some d\<rparr>) w'))"

definition SetRemoteDescription :: "nat \<Rightarrow> SessionDescription \<Rightarrow> world \<Rightarrow> bool \<times> world" where
  "SetRemoteDescription pc d w =
     (case lib_call w of (err, w') \<Rightarrow>
        if err then (True, w')
        else (False, set_pc pc ((pcs w' pc)\<lparr>RemoteDescription := Some d\<rparr>) w'))"

definition AddICECandidate :: "nat \<Rightarrow> string \<Rightarrow> world \<Rightarrow> bool \<times> world" where
  "AddICECandidate pc candidate w =
     (case lib_call w of (err, w') \<Rightarrow>
        if err then (True, w')
        else (False, set_pc pc ((pcs w' pc)\<lparr>ICECandidates := ICECandidates (pcs w' pc) @ [candidate]\<rparr>) w'))"

text \<open>\<^verbatim>\<open>webrtc.NewPeerConnection\<close>: a new object at the next free address.\<close>

definition NewPeerConnection :: "world \<Rightarrow> nat option \<times> world" where
  "NewPeerConnection w =
     (case lib_call w of (err, w') \<Rightarrow>
        if err then (None, w')
        else (Some (next_pc w'),
              (set_pc (next_pc w')
                 \<lparr>ConnectionState = PeerConnectionStateNew, GetSenders = [], GetReceivers = [],
                  LocalDescription = None, RemoteDescription = None, ICECandidates = []\<rparr> w')
              \<lparr>next_pc := Suc (next_pc w')\<rparr>))"

text \<open>\<^verbatim>\<open>AddTransceiverFromKind\<close> with direction recvonly: a receiver that has no track
  yet.\<close>

definition AddTransceiverFromKind :: "nat \<Rightarrow> world \<Rightarrow> bool \<times> world" where
  "AddTransceiverFromKind pc w =
     (case lib_call w of (err, w') \<Rightarrow>
        if err then (True, w')
        else (False, set_pc pc ((pcs w' pc)\<lparr>GetReceivers := GetReceivers (pcs w' pc) @ [None]\<rparr>) w'))"

text \<open>\<^verbatim>\<open>PeerConnection.Close\<close>: the connection is closed whatever the call returns.\<close>

definition Close :: "nat \<Rightarrow> world \<Rightarrow> bool \<times> world" where
  "Close pc w =
     (case lib_call w of (err, w') \<Rightarrow>
        (err, set_pc pc ((pcs w' pc)\<lparr>ConnectionState := PeerConnectionStateClosed\<rparr>) w'))"

text \<open>\<^verbatim>\<open>json.Marshal\<close>.\<close>

definition json_Marshal :: "json \<Rightarrow> world \<Rightarrow> string option \<times> world" where
  "json_Marshal j w =
     (case lib_call w of (err, w') \<Rightarrow> if err then (None, w') else (Some (marshal (lib w') j), w'))"

text \<open>ws.ThreadSafeWriter.WriteJSON, and \<^verbatim>\<open>Close\<close> of the websocket.\<close>

definition WriteJSON :: "nat \<Rightarrow> WebsocketMessage \<Rightarrow> world \<Rightarrow> bool \<times> world" where
  "WriteJSON c m w =
     (case lib_call w of (err, w') \<Rightarrow>
        (err, w'\<lparr>trace := trace w' @ [EvWriteJSON c m (\<not> err)]\<rparr>))"

definition close_ws :: "nat \<Rightarrow> world \<Rightarrow> world" where
  "close_ws c w = w\<lparr>trace := trace w @ [EvClose c]\<rparr>"

text \<open>\<^verbatim>\<open>TrackLocalStaticRTP.WriteRTP\<close>.\<close>

definition WriteRTP :: "TrackLocalStaticRTP \<Rightarrow> Packet \<Rightarrow> world \<Rightarrow> bool \<times> world" where
  "WriteRTP trackLocal p w =
     (case lib_call w of (err, w') \<Rightarrow>
        (err, w'\<lparr>trace := trace w' @ [EvWriteRTP trackLocal p (\<not> err)]\<rparr>))"

section \<open>webrtc/peer/connection.go\<close>

subsection \<open>DispatchKeyFrame\<close>

text \<open>The inner loop over \<^verbatim>\<open>GetReceivers()\<close> of one peer connection: a receiver without a
  track is skipped, the result of \<^verbatim>\<open>WriteRTCP\<close> is dropped.\<close>

fun keyframe_receivers :: "nat \<Rightarrow> TrackRemote option list \<Rightarrow> world \<Rightarrow> world" where
  "keyframe_receivers pc [] w = w"
| "keyframe_receivers pc (None # rs) w = keyframe_receivers pc rs w"
| "keyframe_receivers pc (Some t # rs) w =
     keyframe_receivers pc rs
       (snd (WriteRTCP pc [\<lparr>SenderSSRC = 0, MediaSSRC = tr_SSRC t\<rparr>] w))"

fun keyframe_peers :: "PeerConnectionState list \<Rightarrow> world \<Rightarrow> world" where
  "keyframe_peers [] w = w"
| "keyframe_peers (p # ps) w =
     keyframe_peers ps
       (keyframe_receivers (PeerConnection p) (GetReceivers (pcs w (PeerConnection p))) w)"

definition DispatchKeyFrame :: "nat \<Rightarrow> PeerConnectionState list \<Rightarrow> world \<Rightarrow> world option" where
  "DispatchKeyFrame listLock peerConnections w =
     (case Lock listLock w of
        None \<Rightarrow> None
      | Some w1 \<Rightarrow> Some (Unlock listLock (keyframe_peers peerConnections w1)))"

subsection \<open>SignalPeerConnections\<close>

definition elems :: "slice \<Rightarrow> PeerConnectionState list" where
  "elems sl = take (sl_len sl) (sl_array sl)"

text \<open>\<^verbatim>\<open>append(peerConnections[:i], peerConnections[i+1:]...)\<close>: within capacity, so the
  cells after \<open>i\<close> are copied one place down in the shared array, the last cell keeps its
  value, and the new header is one shorter.\<close>

definition splice :: "nat \<Rightarrow> slice \<Rightarrow> slice" where
  "splice i sl =
     \<lparr>sl_array = take i (sl_array sl) @ drop (Suc i) (elems sl) @ drop (sl_len sl - 1) (sl_array sl),
      sl_len = sl_len sl - 1\<rparr>"

text \<open>The loop over \<^verbatim>\<open>GetSenders()\<close>: \<open>j\<close> is the position of the sender at the head of
  the list still to visit, \<open>existingSenders\<close> the set built so far. The result says
  whether \<^verbatim>\<open>RemoveTrack\<close> failed.\<close>

fun detach_stale ::
  "nat \<Rightarrow> TrackLocalStaticRTP gomap \<Rightarrow> nat \<Rightarrow> TrackLocalStaticRTP option list \<Rightarrow> string set \<Rightarrow>
   world \<Rightarrow> bool \<times> string set \<times> world" where
  "detach_stale pc trackLocals j [] existingSenders w = (False, existingSenders, w)"
| "detach_stale pc trackLocals j (None # ss) existingSenders w =
     detach_stale pc trackLocals (Suc j) ss existingSenders w"
| "detach_stale pc trackLocals j (Some t # ss) existingSenders w =
     (if map_of trackLocals (tl_ID t) \<noteq> None
      then detach_stale pc trackLocals (Suc j) ss (insert (tl_ID t) existingSenders) w
      else case RemoveTrack pc j w of (err, w') \<Rightarrow>
        if err then (True, insert (tl_ID t) existingSenders, w')
        else detach_stale pc trackLocals (Suc j) ss (insert (tl_ID t) existingSenders) w')"

text \<open>The loop over \<^verbatim>\<open>GetReceivers()\<close>.\<close>

definition receiver_tracks :: "TrackRemote option list \<Rightarrow> TrackRemote list" where
  "receiver_tracks rs = List.map_filter id rs"

definition receiver_ids :: "TrackRemote option list \<Rightarrow> string set" where
  "receiver_ids rs = set (map tr_ID (receiver_tracks rs))"

text \<open>The loop over \<^verbatim>\<open>trackLocals\<close>, entry by entry.\<close>

fun attach_missing ::
  "nat \<Rightarrow> TrackLocalStaticRTP gomap \<Rightarrow> string set \<Rightarrow> world \<Rightarrow> bool \<times> world" where
  "attach_missing pc [] existingSenders w = (False, w)"
| "attach_missing pc ((trackID, t) # rest) existingSenders w =
     (if trackID \<in> existingSenders then attach_missing pc rest existingSenders w
      else case AddTrack pc t w of (err, w') \<Rightarrow>
        if err then (True, w') else attach_missing pc rest existingSenders w')"

definition names_json :: "string gomap \<Rightarrow> json" where
  "names_json m = JObject (map (\<lambda>(k, v). (k, JString v)) m)"

definition offer_json :: "SessionDescription \<Rightarrow> json" where
  "offer_json d = JObject [(''type'', JString (sd_Type d)), (''sdp'', JArray (map JString (sd_SDP d)))]"

definition offerData :: "string \<Rightarrow> string gomap \<Rightarrow> string gomap \<Rightarrow> json" where
  "offerData offerString trackNames streamNames =
     JObject [(''offer'', JRaw offerString), (''trackNames'', names_json trackNames),
              (''streamNames'', names_json streamNames)]"

text \<open>Lines 90 to 126: create the offer, install it, marshal it and send it.\<close>

definition send_offer ::
  "PeerConnectionState \<Rightarrow> string gomap \<Rightarrow> string gomap \<Rightarrow> world \<Rightarrow> bool \<times> world" where
  "send_offer p trackNames streamNames w =
     (case CreateOffer (PeerConnection p) w of
        (None, w1) \<Rightarrow> (True, w1)
      | (Some offer, w1) \<Rightarrow>
     (case SetLocalDescription (PeerConnection p) offer w1 of (err2, w2) \<Rightarrow>
        if err2 then (True, w2) else
     (case json_Marshal (offer_json offer) w2 of
        (None, w3) \<Rightarrow> (True, w3)
      | (Some offerString, w3) \<Rightarrow>
     (case json_Marshal (offerData offerString trackNames streamNames) w3 of
        (None, w4) \<Rightarrow> (True, w4)
      | (Some offerDataString, w4) \<Rightarrow>
          WriteJSON (Websocket p) \<lparr>Event = ''offer'', Data = offerDataString\<rparr> w4))))"

text \<open>The body of the loop over the peers, after the test for a closed connection.\<close>

definition sync_peer ::
  "TrackLocalStaticRTP gomap \<Rightarrow> string gomap \<Rightarrow> string gomap \<Rightarrow> PeerConnectionState \<Rightarrow> world \<Rightarrow>
   bool \<times> world" where
  "sync_peer trackLocals trackNames streamNames p w =
     (case detach_stale (PeerConnection p) trackLocals 0 (GetSenders (pcs w (PeerConnection p))) {} w of
        (err1, existingSenders, w1) \<Rightarrow>
          if err1 then (True, w1) else
     (case attach_missing (PeerConnection p) trackLocals
             (existingSenders \<union> receiver_ids (GetReceivers (pcs w1 (PeerConnection p)))) w1 of
        (err2, w2) \<Rightarrow>
          if err2 then (True, w2) else send_offer p trackNames streamNames w2))"

text \<open>How a scan of the peers ends: every peer synchronised, an error (retry), or a closed
  peer found at an index (retry after the splice).\<close>

datatype scan = Synced | TryAgain | ClosedAt nat

fun scan_peers ::
  "TrackLocalStaticRTP gomap \<Rightarrow> string gomap \<Rightarrow> string gomap \<Rightarrow> nat \<Rightarrow> PeerConnectionState list \<Rightarrow>
   world \<Rightarrow> scan \<times> world" where
  "scan_peers trackLocals trackNames streamNames i [] w = (Synced, w)"
| "scan_peers trackLocals trackNames streamNames i (p # ps) w =
     (if ConnectionState (pcs w (PeerConnection p)) = PeerConnectionStateClosed
      then (ClosedAt i, w)
      else case sync_peer trackLocals trackNames streamNames p w of (err, w') \<Rightarrow>
        if err then (TryAgain, w')
        else scan_peers trackLocals trackNames streamNames (Suc i) ps w')"

definition attemptSync ::
  "TrackLocalStaticRTP gomap \<Rightarrow> string gomap \<Rightarrow> string gomap \<Rightarrow> slice \<Rightarrow> world \<Rightarrow>
   bool \<times> slice \<times> world" where
  "attemptSync trackLocals trackNames streamNames peerConnections w =
     (case scan_peers trackLocals trackNames streamNames 0 (elems peerConnections) w of
        (Synced, w') \<Rightarrow> (False, peerConnections, w')
      | (TryAgain, w') \<Rightarrow> (True, peerConnections, w')
      | (ClosedAt i, w') \<Rightarrow> (True, splice i peerConnections, w'))"

text \<open>The loop of lines 132 to 146. \<^verbatim>\<open>syncAttempt\<close> is a Go \<^verbatim>\<open>int\<close>, 64 bits wide. At 25
  the goroutine that sleeps 3 seconds is started and the function returns.\<close>

function sync_loop ::
  "nat \<Rightarrow> TrackLocalStaticRTP gomap \<Rightarrow> string gomap \<Rightarrow> string gomap \<Rightarrow> 64 word \<Rightarrow> slice \<Rightarrow> world \<Rightarrow>
   slice \<times> world" where
  "sync_loop listLock trackLocals trackNames streamNames syncAttempt peerConnections w =
     (if syncAttempt = 25
      then (peerConnections,
            w\<lparr>timers := timers w @
                 [\<lparr>rs_delay = 3, rs_listLock = listLock, rs_peerConnections = peerConnections\<rparr>]\<rparr>)
      else case attemptSync trackLocals trackNames streamNames peerConnections w of
        (tryAgain, peerConnections', w') \<Rightarrow>
          if tryAgain
          then sync_loop listLock trackLocals trackNames streamNames (syncAttempt + 1) peerConnections' w'
          else (peerConnections', w'))"
  by pat_completeness auto
termination
proof (relation "measure (\<lambda>(l, tls, tn, sn, a, sl, w). unat (25 - a))")
  show "wf (measure (\<lambda>(l, tls, tn, sn, a, sl, w). unat (25 - a)))"
    by simp
next
  fix listLock :: nat and trackLocals :: "TrackLocalStaticRTP gomap"
    and trackNames streamNames :: "string gomap" and syncAttempt :: "64 word"
    and peerConnections :: slice and w :: world and x xa y xb ya
  assume "syncAttempt \<noteq> 25"
  then have ne: "25 - syncAttempt \<noteq> 0"
    by simp
  have "unat (25 - syncAttempt - 1) = unat (25 - syncAttempt) - 1"
    by (rule unat_minus_one[OF ne])
  moreover have "0 < unat (25 - syncAttempt)"
    using ne by (simp only: unat_gt_0 word_neq_0_conv)
  ultimately have "unat (25 - syncAttempt - 1) < unat (25 - syncAttempt)"
    by linarith
  moreover have "25 - (syncAttempt + 1) = 25 - syncAttempt - 1"
    by simp
  ultimately show "((listLock, trackLocals, trackNames, streamNames, syncAttempt + 1, xa, ya),
         listLock, trackLocals, trackNames, streamNames, syncAttempt, peerConnections, w)
        \<in> measure (\<lambda>(l, tls, tn, sn, a, sl, w). unat (25 - a))"
    by simp
qed

declare sync_loop.simps [simp del]

text \<open>The function: take the lock; on return release it and then dispatch a keyframe
  request over the slice as the attempts left it.\<close>

definition SignalPeerConnections ::
  "nat \<Rightarrow> TrackLocalStaticRTP gomap \<Rightarrow> PeerConnectionState list \<Rightarrow> string gomap \<Rightarrow> string gomap \<Rightarrow>
   world \<Rightarrow> (slice \<times> world) option" where
  "SignalPeerConnections listLock trackLocals peerConnections trackNames streamNames w =
     (case Lock listLock w of
        None \<Rightarrow> None
      | Some w1 \<Rightarrow>
     (case sync_loop listLock trackLocals trackNames streamNames 0
             \<lparr>sl_array = peerConnections, sl_len = length peerConnections\<rparr> w1 of
        (sl, w2) \<Rightarrow>
     (case DispatchKeyFrame listLock (elems sl) (Unlock listLock w2) of
        None \<Rightarrow> None
      | Some w3 \<Rightarrow> Some (sl, w3))))"

section \<open>main.go\<close>

definition upd_room :: "nat \<Rightarrow> (RoomState \<Rightarrow> RoomState) \<Rightarrow> world \<Rightarrow> world" where
  "upd_room room f w = w\<lparr>room_heap := (room_heap w)(room := f (room_heap w room))\<rparr>"

text \<open>getOrCreateRoom: a new room object gets the next free address and an unlocked
  lock.\<close>

definition getOrCreateRoom :: "string \<Rightarrow> world \<Rightarrow> nat \<times> world" where
  "getOrCreateRoom roomID w =
     (case rooms w roomID of
        Some room \<Rightarrow> (room, w)
      | None \<Rightarrow>
          (next_room w,
           w\<lparr>rooms := (rooms w)(roomID \<mapsto> next_room w),
             room_heap := (room_heap w)(next_room w :=
               \<lparr>PeerConnections = [], TrackLocals = [], TrackNames = [], StreamNames = []\<rparr>),
             locks := (locks w)(next_room w := False),
             next_room := Suc (next_room w)\<rparr>))"

text \<open>The loop of removePeerFromRoom: the first record of the peer connection is cut
  out.\<close>

fun remove_first :: "nat \<Rightarrow> PeerConnectionState list \<Rightarrow> PeerConnectionState list" where
  "remove_first peerConnection [] = []"
| "remove_first peerConnection (pc # rest) =
     (if PeerConnection pc = peerConnection then rest else pc # remove_first peerConnection rest)"

definition removePeerFromRoom :: "string \<Rightarrow> nat \<Rightarrow> world \<Rightarrow> world option" where
  "removePeerFromRoom roomID peerConnection w =
     (case rooms w roomID of
        None \<Rightarrow> Some w
      | Some room \<Rightarrow>
     (case Lock room w of
        None \<Rightarrow> None
      | Some w1 \<Rightarrow>
          let w2 = upd_room room
                     (\<lambda>R. R\<lparr>PeerConnections := remove_first peerConnection (PeerConnections R)\<rparr>) w1;
              w3 = (if length (PeerConnections (room_heap w2 room)) = 0 \<and>
                       length (TrackLocals (room_heap w2 room)) = 0
                    then w2\<lparr>rooms := (rooms w2)(roomID := None)\<rparr> else w2)
          in Some (Unlock room w3)))"

text \<open>
  The call \<^verbatim>\<open>peer.SignalPeerConnections(&room.Lock, room.TrackLocals,
  room.PeerConnections, room.TrackNames, room.StreamNames)\<close> of lines 317 and 394. The
  room's slice header is copied into the call, so after the call the room's list has the
  length it had and reads the array as the call left it.
\<close>

definition signal_room :: "nat \<Rightarrow> world \<Rightarrow> world option" where
  "signal_room room w =
     (case SignalPeerConnections room (TrackLocals (room_heap w room))
             (PeerConnections (room_heap w room)) (TrackNames (room_heap w room))
             (StreamNames (room_heap w room)) w of
        None \<Rightarrow> None
      | Some (sl, w') \<Rightarrow> Some (upd_room room (\<lambda>R. R\<lparr>PeerConnections := sl_array sl\<rparr>) w'))"

text \<open>What a read on the websocket or on an inbound track returns.\<close>

datatype read = ReadError | ReadOk "8 word list"

text \<open>
  The handler is run on the frames its websocket has delivered so far. When they run out
  it has not returned: it is blocked in \<^verbatim>\<open>ReadMessage\<close>, before the join (\<open>Joining\<close>) or
  in the read loop of a registered peer (\<open>Reading\<close>, with the address of the room and of
  the peer connection). Its deferred functions have run only when it has returned.
\<close>

datatype outcome = Returned world | Joining world | Reading nat nat world

fun world_of :: "outcome \<Rightarrow> world" where
  "world_of (Returned w) = w"
| "world_of (Joining w) = w"
| "world_of (Reading room peerConnection w) = w"

text \<open>The read loop of lines 397 to 447. The flag says whether the loop has returned.\<close>

fun read_loop :: "nat \<Rightarrow> WebsocketMessage \<Rightarrow> read list \<Rightarrow> world \<Rightarrow> bool \<times> world" where
  "read_loop peerConnection message [] w = (False, w)"
| "read_loop peerConnection message (ReadError # rest) w = (True, w)"
| "read_loop peerConnection message (ReadOk raw # rest) w =
     (case unmarshal_message (lib w) raw message of
        None \<Rightarrow> (True, w)
      | Some message' \<Rightarrow>
          if Event message' = ''candidate'' then
            (case unmarshal_candidate (lib w) (Data message') of
               None \<Rightarrow> (True, w)
             | Some candidate \<Rightarrow>
                 (case AddICECandidate peerConnection candidate w of (err, w') \<Rightarrow>
                    if err then (True, w') else read_loop peerConnection message' rest w'))
          else if Event message' = ''answer'' then
            (case unmarshal_answer (lib w) (Data message') of
               None \<Rightarrow> (True, w)
             | Some answer \<Rightarrow>
                 (case SetRemoteDescription peerConnection answer w of (err, w') \<Rightarrow>
                    if err then (True, w') else read_loop peerConnection message' rest w'))
          else read_loop peerConnection message' rest w)"

text \<open>Lines 275 to 281: the peer record is appended to the room's list.\<close>

definition register_peer :: "nat \<Rightarrow> nat \<Rightarrow> string \<Rightarrow> nat \<Rightarrow> world \<Rightarrow> world option" where
  "register_peer c room userName peerConnection w =
     (case Lock room w of
        None \<Rightarrow> None
      | Some w1 \<Rightarrow>
          Some (Unlock room (upd_room room
                  (\<lambda>R. R\<lparr>PeerConnections := PeerConnections R @
                      [\<lparr>PeerConnection = peerConnection, Websocket = c, Name = userName\<rparr>]\<rparr>) w1)))"

text \<open>Lines 242 to 281: the room, the peer connection, the transceiver and the
  registration. The result says how far the session got.\<close>

datatype entry = NoPeerConnection | NoTransceiver nat | Stuck | Registered nat nat

definition enter :: "nat \<Rightarrow> string \<Rightarrow> string \<Rightarrow> world \<Rightarrow> entry \<times> world" where
  "enter c roomID userName w =
     (case getOrCreateRoom roomID w of (room, w1) \<Rightarrow>
     (case NewPeerConnection w1 of
        (None, w2) \<Rightarrow> (NoPeerConnection, w2)
      | (Some peerConnection, w2) \<Rightarrow>
     (case AddTransceiverFromKind peerConnection w2 of (err, w3) \<Rightarrow>
        if err then (NoTransceiver peerConnection, w3) else
     (case register_peer c room userName peerConnection w3 of
        None \<Rightarrow> (Stuck, w3)
      | Some w4 \<Rightarrow> (Registered room peerConnection, w4)))))"

text \<open>The deferred function of lines 259 to 262.\<close>

definition leave :: "string \<Rightarrow> nat \<Rightarrow> world \<Rightarrow> world option" where
  "leave roomID peerConnection w = removePeerFromRoom roomID peerConnection (snd (Close peerConnection w))"

text \<open>Lines 242 to 447 with the deferred function: after the registration the first
  synchronisation and the read loop; the deferred function runs on every return after
  the peer connection exists.\<close>

definition joined ::
  "nat \<Rightarrow> string \<Rightarrow> string \<Rightarrow> WebsocketMessage \<Rightarrow> read list \<Rightarrow> world \<Rightarrow> outcome option" where
  "joined c roomID userName message frames w =
     (case enter c roomID userName w of
        (NoPeerConnection, w1) \<Rightarrow> Some (Returned w1)
      | (NoTransceiver peerConnection, w1) \<Rightarrow> map_option Returned (leave roomID peerConnection w1)
      | (Stuck, w1) \<Rightarrow> None
      | (Registered room peerConnection, w1) \<Rightarrow>
          (case signal_room room w1 of
             None \<Rightarrow> None
           | Some w2 \<Rightarrow>
               (case read_loop peerConnection message frames w2 of
                  (True, w3) \<Rightarrow> map_option Returned (leave roomID peerConnection w3)
                | (False, w3) \<Rightarrow> Some (Reading room peerConnection w3))))"

text \<open>Lines 208 to 240: the first message, once it is read. The result is the room
  identifier, the user name and the message (it is reused by the read loop); \<open>None\<close>
  when the session ends here.\<close>

definition handshake :: "library \<Rightarrow> 8 word list \<Rightarrow> (string \<times> string \<times> WebsocketMessage) option" where
  "handshake l raw =
     (case unmarshal_message l raw \<lparr>Event = [], Data = []\<rparr> of
        None \<Rightarrow> None
      | Some message \<Rightarrow>
          if Event message \<noteq> ''join'' then None else
     (case unmarshal_join l (Data message) of
        None \<Rightarrow> None
      | Some joinData \<Rightarrow>
          if jd_RoomID joinData = [] then None
          else Some (jd_RoomID joinData,
                     if jd_Name joinData = [] then ''Anonymous'' else jd_Name joinData,
                     message)))"

text \<open>Lines 200 to 447: the first read, the handshake and the rest.\<close>

definition session :: "nat \<Rightarrow> read list \<Rightarrow> world \<Rightarrow> outcome option" where
  "session c frames w =
     (case frames of
        [] \<Rightarrow> Some (Joining w)
      | ReadError # rest \<Rightarrow> Some (Returned w)
      | ReadOk raw # rest \<Rightarrow>
          (case handshake (lib w) raw of
             None \<Rightarrow> Some (Returned w)
           | Some (roomID, userName, message) \<Rightarrow> joined c roomID userName message rest w))"

text \<open>websocketHandler: the upgrade, then the session; the websocket is closed on every
  return after the upgrade. The ping goroutine, the deadlines and the log are left out.
  The callbacks installed on the peer connection are the functions below; the library
  calls them.\<close>

definition websocketHandler :: "nat \<Rightarrow> read list \<Rightarrow> world \<Rightarrow> outcome option" where
  "websocketHandler c frames w =
     (case lib_call w of (err, w0) \<Rightarrow>
        if err then Some (Returned w0)
        else (case session c frames w0 of
                None \<Rightarrow> None
              | Some (Returned w1) \<Rightarrow> Some (Returned (close_ws c w1))
              | Some blocked \<Rightarrow> Some blocked))"

text \<open>What a handler that is blocked in its read loop does when the read fails (line
  399): it returns, its deferred functions run, the last of them closes the websocket.\<close>

definition hang_up :: "nat \<Rightarrow> string \<Rightarrow> nat \<Rightarrow> world \<Rightarrow> world option" where
  "hang_up c roomID peerConnection w = map_option (close_ws c) (leave roomID peerConnection w)"

text \<open>The callback of \<^verbatim>\<open>OnConnectionStateChange\<close>.\<close>

definition OnConnectionStateChange ::
  "nat \<Rightarrow> nat \<Rightarrow> webrtc_PeerConnectionState \<Rightarrow> world \<Rightarrow> world option" where
  "OnConnectionStateChange room peerConnection p w =
     (if p = PeerConnectionStateFailed then Some (snd (Close peerConnection w))
      else if p = PeerConnectionStateClosed then signal_room room w
      else Some w)"

subsection \<open>The callback of OnTrack\<close>

text \<open>Lines 325 to 334: the name of the first record of the peer connection, the empty
  string when there is none.\<close>

fun owner_name :: "nat \<Rightarrow> PeerConnectionState list \<Rightarrow> string" where
  "owner_name peerConnection [] = []"
| "owner_name peerConnection (pc # rest) =
     (if PeerConnection pc = peerConnection then Name pc else owner_name peerConnection rest)"

text \<open>Lines 325 to 334, under the read lock, and lines 336 to 343, under the write lock.\<close>

definition find_owner :: "nat \<Rightarrow> nat \<Rightarrow> world \<Rightarrow> string option" where
  "find_owner room peerConnection w =
     (case RLock room w of
        None \<Rightarrow> None
      | Some w0 \<Rightarrow> Some (owner_name peerConnection (PeerConnections (room_heap w0 room))))"

definition write_labels :: "nat \<Rightarrow> TrackRemote \<Rightarrow> string \<Rightarrow> world \<Rightarrow> world option" where
  "write_labels room t trackOwnerName w =
     (case Lock room w of
        None \<Rightarrow> None
      | Some w1 \<Rightarrow>
          Some (Unlock room (upd_room room
                  (\<lambda>R. R\<lparr>TrackNames := put (tr_ID t) trackOwnerName (TrackNames R),
                          StreamNames := put (tr_StreamID t) trackOwnerName (StreamNames R)\<rparr>) w1)))"

text \<open>Lines 325 to 343: the owner's name and the two labels.\<close>

definition label_track :: "nat \<Rightarrow> nat \<Rightarrow> TrackRemote \<Rightarrow> world \<Rightarrow> (string \<times> world) option" where
  "label_track room peerConnection t w =
     (case find_owner room peerConnection w of
        None \<Rightarrow> None
      | Some trackOwnerName \<Rightarrow>
          map_option (\<lambda>w1. (trackOwnerName, w1)) (write_labels room t trackOwnerName w))"

text \<open>
  Modelled from the spec: \<^verbatim>\<open>track.AddTrack\<close> of package webrtc/track, which is not among
  the sources. The spec (4.7, steps 1 and 2, and the design note on loopback): a new
  forwarding track is created, with the inbound track's identifiers, and inserted into
  the room's tracks under the inbound track's identifier, under the lock; then the
  synchroniser is invoked.
\<close>

definition track_AddTrack :: "TrackRemote \<Rightarrow> nat \<Rightarrow> world \<Rightarrow> (TrackLocalStaticRTP \<times> world) option" where
  "track_AddTrack t room w =
     (case Lock room w of
        None \<Rightarrow> None
      | Some w1 \<Rightarrow>
          let trackLocal = \<lparr>tl_ID = tr_ID t, tl_StreamID = tr_StreamID t\<rparr>;
              w2 = Unlock room (upd_room room
                     (\<lambda>R. R\<lparr>TrackLocals := put (tr_ID t) trackLocal (TrackLocals R)\<rparr>) w1)
          in (case signal_room room w2 of
                None \<Rightarrow> None
              | Some w3 \<Rightarrow> Some (trackLocal, w3)))"

text \<open>
  Modelled from the spec: \<^verbatim>\<open>track.RemoveTrack\<close> of package webrtc/track, which is not
  among the sources. The spec (4.5 (f) and 4.7, step 4): the forwarding track is removed
  from the room, under the lock, and the synchroniser is invoked.
\<close>

definition track_RemoveTrack :: "TrackLocalStaticRTP \<Rightarrow> nat \<Rightarrow> world \<Rightarrow> world option" where
  "track_RemoveTrack trackLocal room w =
     (case Lock room w of
        None \<Rightarrow> None
      | Some w1 \<Rightarrow>
          signal_room room
            (Unlock room (upd_room room
               (\<lambda>R. R\<lparr>TrackLocals := filter (\<lambda>(k, v). v \<noteq> trackLocal) (TrackLocals R)\<rparr>) w1)))"

text \<open>Lines 348 to 355: the forwarding track's own identifier becomes a label too when
  it differs from the inbound track's.\<close>

definition label_local ::
  "nat \<Rightarrow> TrackRemote \<Rightarrow> TrackLocalStaticRTP \<Rightarrow> string \<Rightarrow> world \<Rightarrow> world option" where
  "label_local room t trackLocal trackOwnerName w =
     (if tl_ID trackLocal \<noteq> tr_ID t then
        (case Lock room w of
           None \<Rightarrow> None
         | Some w1 \<Rightarrow>
             Some (Unlock room (upd_room room
                     (\<lambda>R. R\<lparr>TrackNames := put (tl_ID trackLocal) trackOwnerName (TrackNames R)\<rparr>) w1)))
      else Some w)"

text \<open>Lines 345 to 355: the forwarding track and its label.\<close>

definition forward_track ::
  "nat \<Rightarrow> TrackRemote \<Rightarrow> string \<Rightarrow> world \<Rightarrow> (TrackLocalStaticRTP \<times> world) option" where
  "forward_track room t trackOwnerName w =
     (case track_AddTrack t room w of
        None \<Rightarrow> None
      | Some (trackLocal, w1) \<Rightarrow>
          (case label_local room t trackLocal trackOwnerName w1 of
             None \<Rightarrow> None
           | Some w2 \<Rightarrow> Some (trackLocal, w2)))"

text \<open>Lines 357 to 363, the deferred function.\<close>

definition unlabel_track :: "nat \<Rightarrow> TrackRemote \<Rightarrow> world \<Rightarrow> world option" where
  "unlabel_track room t w =
     (case Lock room w of
        None \<Rightarrow> None
      | Some w1 \<Rightarrow>
          Some (Unlock room (upd_room room
                  (\<lambda>R. R\<lparr>TrackNames := delete (tr_ID t) (TrackNames R),
                          StreamNames := delete (tr_StreamID t) (StreamNames R)\<rparr>) w1)))"

definition OnTrack_deferred :: "nat \<Rightarrow> TrackRemote \<Rightarrow> TrackLocalStaticRTP \<Rightarrow> world \<Rightarrow> world option" where
  "OnTrack_deferred room t trackLocal w =
     (case unlabel_track room t w of
        None \<Rightarrow> None
      | Some w1 \<Rightarrow> track_RemoveTrack trackLocal room w1)"

text \<open>Lines 368 to 386, one turn of the ingest loop after a read that returned \<open>buf\<close>:
  \<open>None\<close> when the loop returns, else the packet as it stays in \<^verbatim>\<open>rtpPkt\<close>.\<close>

definition ingest_packet ::
  "TrackLocalStaticRTP \<Rightarrow> Packet \<Rightarrow> 8 word list \<Rightarrow> world \<Rightarrow> Packet option \<times> world" where
  "ingest_packet trackLocal rtpPkt buf w =
     (case rtp_Unmarshal (lib w) buf rtpPkt of
        None \<Rightarrow> (None, w)
      | Some unmarshalled \<Rightarrow>
          let stripped = unmarshalled\<lparr>Extension := False, Extensions := []\<rparr> in
          (case WriteRTP trackLocal stripped w of (err, w') \<Rightarrow>
             if err then (None, w') else (Some stripped, w')))"

fun ingest :: "TrackLocalStaticRTP \<Rightarrow> Packet \<Rightarrow> read list \<Rightarrow> world \<Rightarrow> world" where
  "ingest trackLocal rtpPkt [] w = w"
| "ingest trackLocal rtpPkt (ReadError # rest) w = w"
| "ingest trackLocal rtpPkt (ReadOk buf # rest) w =
     (case ingest_packet trackLocal rtpPkt buf w of
        (None, w') \<Rightarrow> w'
      | (Some rtpPkt', w') \<Rightarrow> ingest trackLocal rtpPkt' rest w')"

definition zero_packet :: Packet where
  "zero_packet = \<lparr>Version = 0, Padding = False, Extension = False, Marker = False, PayloadType = 0,
                  SequenceNumber = 0, Timestamp = 0, SSRC = 0, CSRC = [], ExtensionProfile = 0,
                  Extensions = [], Payload = [], PaddingSize = 0\<rparr>"

text \<open>The whole callback, run without interruption: \<open>reads\<close> is what \<^verbatim>\<open>t.Read\<close> returns,
  call after call; when the list runs out the track has ended and the next read fails.\<close>

definition OnTrack :: "nat \<Rightarrow> nat \<Rightarrow> TrackRemote \<Rightarrow> read list \<Rightarrow> world \<Rightarrow> world option" where
  "OnTrack room peerConnection t reads w =
     (case label_track room peerConnection t w of
        None \<Rightarrow> None
      | Some (trackOwnerName, w1) \<Rightarrow>
     (case forward_track room t trackOwnerName w1 of
        None \<Rightarrow> None
      | Some (trackLocal, w2) \<Rightarrow>
          OnTrack_deferred room t trackLocal (ingest trackLocal zero_packet reads w2)))"

subsection \<open>Callbacks side by side\<close>

text \<open>
  The library calls OnTrack in a goroutine of its own for every inbound track, so the
  callbacks of a room run side by side with each other and with the handlers. A callback
  can be overtaken wherever it holds no lock. An upload is a callback together with the
  place it has reached:

  \<^item> \<open>Arrived\<close>: the callback was called;
  \<^item> \<open>Named\<close>: the owner's name is found (line 334);
  \<^item> \<open>Labelled\<close>: the labels are written (line 343);
  \<^item> \<open>Inserted\<close>: \<^verbatim>\<open>track.AddTrack\<close> has returned the forwarding track (line 346);
  \<^item> \<open>Ingesting\<close>: the deferred function is installed and the ingest loop runs (lines
    357 to 386);
  \<^item> \<open>Unlabelled\<close>: the loop has returned and the labels are deleted (line 361);
  \<^item> \<open>Finished\<close>: \<^verbatim>\<open>track.RemoveTrack\<close> has returned (line 362).
\<close>

datatype phase =
    Arrived
  | Named string
  | Labelled string
  | Inserted string TrackLocalStaticRTP
  | Ingesting TrackLocalStaticRTP
  | Unlabelled TrackLocalStaticRTP
  | Finished

record upload =
  up_conn :: nat
  up_track :: TrackRemote
  up_phase :: phase

text \<open>The next section of the callback; \<open>None\<close> when it waits for the lock, or has
  finished.\<close>

definition advance :: "nat \<Rightarrow> upload \<Rightarrow> world \<Rightarrow> (upload \<times> world) option" where
  "advance room u w =
     (case up_phase u of
        Arrived \<Rightarrow>
          map_option (\<lambda>n. (u\<lparr>up_phase := Named n\<rparr>, w)) (find_owner room (up_conn u) w)
      | Named n \<Rightarrow>
          map_option (\<lambda>w'. (u\<lparr>up_phase := Labelled n\<rparr>, w')) (write_labels room (up_track u) n w)
      | Labelled n \<Rightarrow>
          map_option (\<lambda>(trackLocal, w'). (u\<lparr>up_phase := Inserted n trackLocal\<rparr>, w'))
            (track_AddTrack (up_track u) room w)
      | Inserted n trackLocal \<Rightarrow>
          map_option (\<lambda>w'. (u\<lparr>up_phase := Ingesting trackLocal\<rparr>, w'))
            (label_local room (up_track u) trackLocal n w)
      | Ingesting trackLocal \<Rightarrow>
          map_option (\<lambda>w'. (u\<lparr>up_phase := Unlabelled trackLocal\<rparr>, w'))
            (unlabel_track room (up_track u) w)
      | Unlabelled trackLocal \<Rightarrow>
          map_option (\<lambda>w'. (u\<lparr>up_phase := Finished\<rparr>, w')) (track_RemoveTrack trackLocal room w)
      | Finished \<Rightarrow> None)"

text \<open>
  A schedule says in which order things happen in a room: an inbound track arrives on a
  peer connection and its callback is called; the upload at a position runs its next
  section; or other code runs (a handler, the synchroniser, the keyframe ticker, a turn
  of an ingest loop). Other code does not write the room's \<^verbatim>\<open>TrackNames\<close> and
  \<^verbatim>\<open>TrackLocals\<close>: main.go writes \<^verbatim>\<open>TrackNames\<close> on lines 340, 352 and 359 only, all
  in the callback, and hands \<^verbatim>\<open>TrackLocals\<close> to package track and to the synchroniser,
  which reads it. A schedule that cannot be run as it stands (a section that waits for
  the lock, a position without an upload, other code that writes the two maps) has no
  result.
\<close>

datatype action = Arrive nat TrackRemote | Advance nat | Other "world \<Rightarrow> world option"

text \<open>When an inbound track starts, the library lets the first receiver of the peer
  connection that has no track carry it (a further receiver when there is none) and
  calls OnTrack with the track.\<close>

fun fill_receiver :: "TrackRemote \<Rightarrow> TrackRemote option list \<Rightarrow> TrackRemote option list" where
  "fill_receiver t [] = [Some t]"
| "fill_receiver t (None # rs) = Some t # rs"
| "fill_receiver t (Some t' # rs) = Some t' # fill_receiver t rs"

definition start_track :: "nat \<Rightarrow> TrackRemote \<Rightarrow> world \<Rightarrow> world" where
  "start_track peerConnection t w =
     set_pc peerConnection
       ((pcs w peerConnection)\<lparr>GetReceivers := fill_receiver t (GetReceivers (pcs w peerConnection))\<rparr>) w"

definition same_maps :: "nat \<Rightarrow> world \<Rightarrow> world \<Rightarrow> bool" where
  "same_maps room w w' \<longleftrightarrow>
     TrackNames (room_heap w' room) = TrackNames (room_heap w room) \<and>
     TrackLocals (room_heap w' room) = TrackLocals (room_heap w room)"

fun run :: "nat \<Rightarrow> action list \<Rightarrow> upload list \<times> world \<Rightarrow> (upload list \<times> world) option" where
  "run room [] s = Some s"
| "run room (Arrive peerConnection t # rest) (us, w) =
     run room rest (us @ [\<lparr>up_conn = peerConnection, up_track = t, up_phase = Arrived\<rparr>],
                    start_track peerConnection t w)"
| "run room (Advance i # rest) (us, w) =
     (if i < length us
      then (case advance room (us ! i) w of
              None \<Rightarrow> None
            | Some (u, w') \<Rightarrow> run room rest (us[i := u], w'))
      else None)"
| "run room (Other f # rest) (us, w) =
     (case f w of
        None \<Rightarrow> None
      | Some w' \<Rightarrow> if same_maps room w w' then run room rest (us, w') else None)"

section \<open>Vocabulary of the properties\<close>

text \<open>The Picture Loss Indications a scan of \<open>ps\<close> owes: one per peer and receiver with a
  track, in scan order, each with the connection it is written on; and the events of
  writing them one after the other from the world \<open>w\<close> on.\<close>

definition plis_due :: "world \<Rightarrow> PeerConnectionState list \<Rightarrow> (nat \<times> PictureLossIndication) list" where
  "plis_due w ps =
     concat (map (\<lambda>p. map (\<lambda>t. (PeerConnection p, \<lparr>SenderSSRC = 0, MediaSSRC = tr_SSRC t\<rparr>))
                        (receiver_tracks (GetReceivers (pcs w (PeerConnection p))))) ps)"

definition pli_events :: "world \<Rightarrow> (nat \<times> PictureLossIndication) list \<Rightarrow> event list" where
  "pli_events w xs =
     map (\<lambda>(k, (pc, pli)). EvWriteRTCP pc [pli] (\<not> fault w k)) (List.enumerate (ticks w) xs)"

text \<open>What a call leaves alone: the locks, the environment, the registry and the rooms.\<close>

definition frame :: "world \<Rightarrow> world \<Rightarrow> bool" where
  "frame w w' \<longleftrightarrow> locks w' = locks w \<and> fault w' = fault w \<and> lib w' = lib w \<and> rooms w' = rooms w \<and>
     room_heap w' = room_heap w \<and> next_room w' = next_room w \<and> next_pc w' = next_pc w \<and>
     timers w' = timers w"

definition registry_frame :: "world \<Rightarrow> world \<Rightarrow> bool" where
  "registry_frame w w' \<longleftrightarrow> locks w' = locks w \<and> fault w' = fault w \<and> lib w' = lib w \<and>
     rooms w' = rooms w \<and> room_heap w' = room_heap w \<and> next_room w' = next_room w \<and>
     next_pc w' = next_pc w"

text \<open>The senders of a connection after a synchronisation: those whose track is still a
  key of the map keep it, the others carry none, and the entries whose key is in neither
  the old senders nor the receivers are appended.\<close>

definition kept ::
  "TrackLocalStaticRTP gomap \<Rightarrow> TrackLocalStaticRTP option list \<Rightarrow> TrackLocalStaticRTP option list" where
  "kept trackLocals ss =
     map (\<lambda>s. case s of None \<Rightarrow> None
               | Some t \<Rightarrow> if map_of trackLocals (tl_ID t) \<noteq> None then Some t else None) ss"

definition missing :: "TrackLocalStaticRTP gomap \<Rightarrow> string set \<Rightarrow> TrackLocalStaticRTP option list" where
  "missing trackLocals existingSenders =
     map (\<lambda>(k, t). Some t) (filter (\<lambda>(k, t). k \<notin> existingSenders) trackLocals)"

definition synced_senders ::
  "TrackLocalStaticRTP gomap \<Rightarrow> TrackRemote option list \<Rightarrow> TrackLocalStaticRTP option list \<Rightarrow>
   TrackLocalStaticRTP option list" where
  "synced_senders trackLocals rs ss =
     kept trackLocals ss @ missing trackLocals (set (sender_ids ss) \<union> receiver_ids rs)"

definition offer_for :: "TrackLocalStaticRTP option list \<Rightarrow> SessionDescription" where
  "offer_for ss = \<lparr>sd_Type = ''offer'', sd_SDP = sender_ids ss\<rparr>"

text \<open>The offer message for a description: event \<^verbatim>\<open>offer\<close>, and as data the marshalled
  map of \<^verbatim>\<open>offer\<close>, \<^verbatim>\<open>trackNames\<close> and \<^verbatim>\<open>streamNames\<close>.\<close>

definition offer_message ::
  "library \<Rightarrow> SessionDescription \<Rightarrow> string gomap \<Rightarrow> string gomap \<Rightarrow> WebsocketMessage" where
  "offer_message l d trackNames streamNames =
     \<lparr>Event = ''offer'',
      Data = marshal l (JObject [(''offer'', JRaw (marshal l (offer_json d))),
                                 (''trackNames'', names_json trackNames),
                                 (''streamNames'', names_json streamNames)])\<rparr>"

text \<open>The identifiers a connection sends and receives.\<close>

definition sending :: "PeerConnection \<Rightarrow> string set" where
  "sending c = set (sender_ids (GetSenders c))"

definition receiving :: "PeerConnection \<Rightarrow> string set" where
  "receiving c = receiver_ids (GetReceivers c)"

text \<open>Every forwarding track is stored under its own identifier.\<close>

definition own_keys :: "TrackLocalStaticRTP gomap \<Rightarrow> bool" where
  "own_keys trackLocals \<longleftrightarrow> (\<forall>(k, t) \<in> set trackLocals. tl_ID t = k)"

text \<open>No sender of the connection carries a track of the map whose identifier is also
  the identifier of a track the connection receives.\<close>

definition loop_free :: "TrackLocalStaticRTP gomap \<Rightarrow> PeerConnection \<Rightarrow> bool" where
  "loop_free trackLocals c \<longleftrightarrow> sending c \<inter> receiving c \<inter> fst ` set trackLocals = {}"

definition in_sync :: "TrackLocalStaticRTP gomap \<Rightarrow> PeerConnection \<Rightarrow> bool" where
  "in_sync trackLocals c \<longleftrightarrow> sending c = fst ` set trackLocals - receiving c"

text \<open>The state after \<open>k\<close> attempts that all signalled retry; \<open>None\<close> when one of them did
  not.\<close>

fun attempts ::
  "TrackLocalStaticRTP gomap \<Rightarrow> string gomap \<Rightarrow> string gomap \<Rightarrow> nat \<Rightarrow> slice \<Rightarrow> world \<Rightarrow>
   (slice \<times> world) option" where
  "attempts trackLocals trackNames streamNames 0 sl w = Some (sl, w)"
| "attempts trackLocals trackNames streamNames (Suc k) sl w =
     (case attemptSync trackLocals trackNames streamNames sl w of
        (tryAgain, sl', w') \<Rightarrow>
          if tryAgain then attempts trackLocals trackNames streamNames k sl' w' else None)"

text \<open>The first message ends the session: it does not unmarshal, its event is not
  \<^verbatim>\<open>join\<close>, its data does not parse, or the room identifier is empty.\<close>

definition bad_first_message :: "library \<Rightarrow> 8 word list \<Rightarrow> bool" where
  "bad_first_message l raw \<longleftrightarrow>
     (case unmarshal_message l raw \<lparr>Event = [], Data = []\<rparr> of
        None \<Rightarrow> True
      | Some message \<Rightarrow>
          Event message \<noteq> ''join'' \<or>
          (case unmarshal_join l (Data message) of
             None \<Rightarrow> True
           | Some joinData \<Rightarrow> jd_RoomID joinData = []))"


text \<open>Every key of the label map \<^verbatim>\<open>trackNames\<close> is a key of the tracks, or the identifier
  of a forwarding track among them.\<close>

definition labels_have_tracks :: "RoomState \<Rightarrow> bool" where
  "labels_have_tracks R \<longleftrightarrow>
     (\<forall>k \<in> fst ` set (TrackNames R).
        k \<in> fst ` set (TrackLocals R) \<or> k \<in> tl_ID ` snd ` set (TrackLocals R))"


fun arrivals :: "action list \<Rightarrow> string list" where
  "arrivals [] = []"
| "arrivals (Arrive peerConnection t # rest) = tr_ID t # arrivals rest"
| "arrivals (Advance i # rest) = arrivals rest"
| "arrivals (Other f # rest) = arrivals rest"









section \<open>Sample worlds\<close>

text \<open>A connected peer connection with nothing attached, a library that decodes
  nothing, and a world without rooms in which no library call fails.\<close>

definition idle_pc :: PeerConnection where
  "idle_pc = \<lparr>ConnectionState = PeerConnectionStateConnected, GetSenders = [], GetReceivers = [],
              LocalDescription = None, RemoteDescription = None, ICECandidates = []\<rparr>"

definition empty_room :: RoomState where
  "empty_room = \<lparr>PeerConnections = [], TrackLocals = [], TrackNames = [], StreamNames = []\<rparr>"

definition deaf_library :: library where
  "deaf_library = \<lparr>marshal = (\<lambda>j. ''json''), unmarshal_message = (\<lambda>raw m. None),
                   unmarshal_join = (\<lambda>d. None), unmarshal_candidate = (\<lambda>d. None),
                   unmarshal_answer = (\<lambda>d. None), rtp_Unmarshal = (\<lambda>buf p. None)\<rparr>"

definition calm_world :: world where
  "calm_world = \<lparr>pcs = (\<lambda>_. idle_pc), locks = (\<lambda>_. False), trace = [], ticks = 0,
                 fault = (\<lambda>_. False), lib = deaf_library, rooms = Map.empty,
                 room_heap = (\<lambda>_. empty_room), next_room = 0, next_pc = 0, timers = []\<rparr>"

definition peer_rec :: "nat \<Rightarrow> string \<Rightarrow> PeerConnectionState" where
  "peer_rec a nm = \<lparr>PeerConnection = a, Websocket = a, Name = nm\<rparr>"

definition remote :: "string \<Rightarrow> 32 word \<Rightarrow> TrackRemote" where
  "remote i s = \<lparr>tr_ID = i, tr_StreamID = ''stream-'' @ i, tr_SSRC = s\<rparr>"

definition forwarding :: "string \<Rightarrow> TrackLocalStaticRTP" where
  "forwarding i = \<lparr>tl_ID = i, tl_StreamID = ''stream-'' @ i\<rparr>"

text \<open>Peer 2 uploads two tracks and has one receiver without a track; the first RTCP
  write fails.\<close>

definition keyframe_world :: world where
  "keyframe_world =
     calm_world\<lparr>fault := (\<lambda>k. k = 0),
                pcs := (\<lambda>_. idle_pc)(2 := idle_pc\<lparr>GetReceivers :=
                         [None, Some (remote ''t'' 5), Some (remote ''u'' 6)]\<rparr>)\<rparr>"

text \<open>Alice (connection 2) uploads the track \<^verbatim>\<open>t-A\<close>; Bob (connection 3) receives its
  forwarding track; both are in the list, the map holds the forwarding track.\<close>

definition two_peers :: "PeerConnectionState list" where
  "two_peers = [peer_rec 2 ''Alice'', peer_rec 3 ''Bob'']"

definition one_track :: "TrackLocalStaticRTP gomap" where
  "one_track = [(''t-A'', forwarding ''t-A'')]"

definition fresh_world :: world where
  "fresh_world =
     calm_world\<lparr>pcs := (\<lambda>_. idle_pc)(2 := idle_pc\<lparr>GetReceivers := [Some (remote ''t-A'' 5)]\<rparr>)\<rparr>"

definition synced_world :: world where
  "synced_world =
     calm_world\<lparr>pcs := (\<lambda>_. idle_pc)
                  (2 := idle_pc\<lparr>GetReceivers := [Some (remote ''t-A'' 5)]\<rparr>,
                   3 := idle_pc\<lparr>GetSenders := [Some (forwarding ''t-A'')]\<rparr>)\<rparr>"

text \<open>Bob (connection 3) receives Alice's forwarding track, whose identifier is
  \<^verbatim>\<open>audio\<close>, and uploads a track of his own with the same identifier.\<close>

definition loopback_world :: world where
  "loopback_world =
     calm_world\<lparr>pcs := (\<lambda>_. idle_pc)
                  (3 := idle_pc\<lparr>GetSenders := [Some \<lparr>tl_ID = ''audio'', tl_StreamID = ''alice''\<rparr>],
                                 GetReceivers := [Some \<lparr>tr_ID = ''audio'', tr_StreamID = ''bob'',
                                                         tr_SSRC = 6\<rparr>]\<rparr>)\<rparr>"

text \<open>Bob's connection (3) is closed; and a world in which every library call fails.\<close>

definition closed_world :: world where
  "closed_world =
     calm_world\<lparr>pcs := (\<lambda>_. idle_pc)(3 := idle_pc\<lparr>ConnectionState := PeerConnectionStateClosed\<rparr>)\<rparr>"

definition failing_world :: world where
  "failing_world = calm_world\<lparr>fault := (\<lambda>_. True)\<rparr>"

text \<open>The map after Bob's upload: his forwarding track has taken the key \<^verbatim>\<open>audio\<close>.\<close>

definition audio_track :: "TrackLocalStaticRTP gomap" where
  "audio_track = [(''audio'', \<lparr>tl_ID = ''audio'', tl_StreamID = ''bob''\<rparr>)]"

definition bob_alone :: slice where
  "bob_alone = \<lparr>sl_array = [peer_rec 3 ''Bob''], sl_len = 1\<rparr>"

definition both_peers :: slice where
  "both_peers = \<lparr>sl_array = two_peers, sl_len = 2\<rparr>"

text \<open>The room \<^verbatim>\<open>r\<close> at address 0 with Alice and Bob, and with Carol (connection 4) after
  them; Bob's connection is closed.\<close>

definition room_of_two :: world where
  "room_of_two =
     closed_world\<lparr>rooms := [''r'' \<mapsto> 0], next_room := 1, next_pc := 4,
                   room_heap := (\<lambda>_. empty_room)(0 := empty_room\<lparr>PeerConnections := two_peers\<rparr>)\<rparr>"

definition room_of_three :: world where
  "room_of_three =
     closed_world\<lparr>rooms := [''r'' \<mapsto> 0], next_room := 1, next_pc := 5,
                   room_heap := (\<lambda>_. empty_room)
                     (0 := empty_room\<lparr>PeerConnections := two_peers @ [peer_rec 4 ''Carol'']\<rparr>)\<rparr>"

text \<open>A library that decodes five first messages: a join of room \<^verbatim>\<open>r2\<close> without a name,
  a message that is no join, a join whose data does not parse, a join without a room, and
  a join of room \<^verbatim>\<open>r2\<close> under the name Dave.
  Its RTP decoder reads the first byte as the sequence number of a packet with one
  header extension.\<close>

definition join_library :: library where
  "join_library =
     deaf_library\<lparr>
       unmarshal_message := (\<lambda>raw m.
          if raw = [1] then Some \<lparr>Event = ''join'', Data = ''good''\<rparr>
          else if raw = [2] then Some \<lparr>Event = ''hello'', Data = ''good''\<rparr>
          else if raw = [3] then Some \<lparr>Event = ''join'', Data = ''garbled''\<rparr>
          else if raw = [4] then Some \<lparr>Event = ''join'', Data = ''noroom''\<rparr>
          else if raw = [5] then Some \<lparr>Event = ''join'', Data = ''named''\<rparr>
          else None),
       unmarshal_join := (\<lambda>d.
          if d = ''good'' then Some \<lparr>jd_RoomID = ''r2'', jd_Name = []\<rparr>
          else if d = ''noroom'' then Some \<lparr>jd_RoomID = [], jd_Name = ''Dave''\<rparr>
          else if d = ''named'' then Some \<lparr>jd_RoomID = ''r2'', jd_Name = ''Dave''\<rparr>
          else None),
       rtp_Unmarshal := (\<lambda>buf p.
          case buf of [] \<Rightarrow> None
          | b # bs \<Rightarrow> Some (p\<lparr>Version := 2, Extension := True, SequenceNumber := ucast b,
                                ExtensionProfile := 48862, Extensions := [(1, [7])],
                                Payload := bs\<rparr>))\<rparr>"

definition join_world :: world where
  "join_world = calm_world\<lparr>lib := join_library\<rparr>"

text \<open>The room \<^verbatim>\<open>r\<close> at address 0 with Alice and Bob, both connected.\<close>

definition open_room :: world where
  "open_room =
     calm_world\<lparr>rooms := [''r'' \<mapsto> 0], next_room := 1, next_pc := 4,
                 room_heap := (\<lambda>_. empty_room)(0 := empty_room\<lparr>PeerConnections := two_peers\<rparr>)\<rparr>"

text \<open>A client has joined the room \<^verbatim>\<open>r2\<close> without a name, on the websocket 9: its handler
  waits in the read loop. The same with the name Dave.\<close>

definition joined_world :: world where
  "joined_world = world_of (the (websocketHandler 9 [ReadOk [1]] join_world))"

definition dave_world :: world where
  "dave_world = world_of (the (websocketHandler 9 [ReadOk [5]] join_world))"


definition same_identifier :: "action list" where
  "same_identifier =
     [Arrive 2 (remote ''audio'' 5), Advance 0, Advance 0, Advance 0, Advance 0, Advance 0,
      Arrive 3 (remote ''audio'' 6), Advance 1, Advance 1, Advance 1, Advance 1,
      Advance 0]"

text \<open>What is read off the result of a schedule: where each upload is, the keys of the
  labels and the keys of the tracks of the room.\<close>

definition summary :: "nat \<Rightarrow> (upload list \<times> world) option \<Rightarrow> (phase list \<times> string list \<times> string list) option" where
  "summary room result =
     map_option (\<lambda>(us, w). (map up_phase us, map fst (TrackNames (room_heap w room)),
                              map fst (TrackLocals (room_heap w room)))) result"

text \<open>The client of \<open>joined_world\<close> uploads the track \<^verbatim>\<open>t-C\<close>: the callback runs up to its
  ingest loop. Then the websocket fails and the handler returns before the callback
  leaves its loop and tears down; or the callback tears down first.\<close>

definition upload_running :: "action list" where
  "upload_running = [Arrive 0 (remote ''t-C'' 7), Advance 0, Advance 0, Advance 0, Advance 0]"

definition handler_returns_first :: "action list" where
  "handler_returns_first = upload_running @ [Other (hang_up 9 ''r2'' 0), Advance 0, Advance 0]"

definition callback_returns_first :: "action list" where
  "callback_returns_first = upload_running @ [Advance 0, Advance 0, Other (hang_up 9 ''r2'' 0)]"

text \<open>What is read off the result for a room: its entry in the registry, its peer list,
  the keys of its tracks, and where each upload is.\<close>

definition room_state ::
  "string \<Rightarrow> nat \<Rightarrow> (upload list \<times> world) option \<Rightarrow>
   (nat option \<times> PeerConnectionState list \<times> string list \<times> phase list) option" where
  "room_state roomID room result =
     map_option (\<lambda>(us, w). (rooms w roomID, PeerConnections (room_heap w room),
                              map fst (TrackLocals (room_heap w room)), map up_phase us)) result"

section \<open>Properties\<close>

lemma keyframe_receivers_effect:
  "keyframe_receivers pc rs w =
     w\<lparr>ticks := ticks w + length (receiver_tracks rs),
       trace := trace w @ pli_events w (map (\<lambda>t. (pc, \<lparr>SenderSSRC = 0, MediaSSRC = tr_SSRC t\<rparr>))
                                           (receiver_tracks rs))\<rparr>"
proof (induction pc rs w rule: keyframe_receivers.induct)
  case (1 pc w)
  show ?case by (simp add: receiver_tracks_def pli_events_def List.map_filter_simps)
next
  case (2 pc rs w)
  then show ?case by (simp add: receiver_tracks_def List.map_filter_simps)
next
  case (3 pc t rs w)
  then show ?case
    by (simp add: receiver_tracks_def List.map_filter_simps pli_events_def WriteRTCP_def
        lib_call_def)
qed

lemma pli_events_append:
  "pli_events w (xs @ ys) = pli_events w xs @ pli_events (w\<lparr>ticks := ticks w + length xs\<rparr>) ys"
  by (simp add: pli_events_def enumerate_append_eq)

lemma pli_events_cong:
  "ticks w' = ticks w \<Longrightarrow> fault w' = fault w \<Longrightarrow> pli_events w' xs = pli_events w xs"
  by (simp add: pli_events_def)

lemma plis_due_cong: "pcs w' = pcs w \<Longrightarrow> plis_due w' ps = plis_due w ps"
  by (simp add: plis_due_def)

lemma keyframe_peers_effect:
  "keyframe_peers ps w =
     w\<lparr>ticks := ticks w + length (plis_due w ps),
       trace := trace w @ pli_events w (plis_due w ps)\<rparr>"
proof (induction ps arbitrary: w)
  case Nil
  show ?case by (simp add: plis_due_def pli_events_def)
next
  case (Cons p ps)
  let ?here = "map (\<lambda>t. (PeerConnection p, \<lparr>SenderSSRC = 0, MediaSSRC = tr_SSRC t\<rparr>))
                 (receiver_tracks (GetReceivers (pcs w (PeerConnection p))))"
  let ?w1 = "keyframe_receivers (PeerConnection p) (GetReceivers (pcs w (PeerConnection p))) w"
  have w1: "?w1 = w\<lparr>ticks := ticks w + length ?here, trace := trace w @ pli_events w ?here\<rparr>"
    by (simp add: keyframe_receivers_effect)
  have due: "plis_due w (p # ps) = ?here @ plis_due w ps"
    by (simp add: plis_due_def)
  have due1: "plis_due ?w1 ps = plis_due w ps"
    by (rule plis_due_cong) (simp add: w1)
  have ev1: "pli_events ?w1 (plis_due w ps) =
             pli_events (w\<lparr>ticks := ticks w + length ?here\<rparr>) (plis_due w ps)"
    by (rule pli_events_cong) (simp_all add: w1)
  have "keyframe_peers (p # ps) w = keyframe_peers ps ?w1"
    by simp
  also have "\<dots> = ?w1\<lparr>ticks := ticks ?w1 + length (plis_due ?w1 ps),
                       trace := trace ?w1 @ pli_events ?w1 (plis_due ?w1 ps)\<rparr>"
    by (rule Cons.IH)
  also have "\<dots> = w\<lparr>ticks := ticks w + length (plis_due w (p # ps)),
                     trace := trace w @ pli_events w (plis_due w (p # ps))\<rparr>"
    unfolding due1 ev1 unfolding w1 due pli_events_append by simp
  finally show ?case .
qed

lemma DispatchKeyFrame_effect:
  "\<not> locks w listLock \<Longrightarrow>
   DispatchKeyFrame listLock ps w =
     Some (w\<lparr>ticks := ticks w + length (plis_due w ps),
             trace := trace w @ [EvLock listLock] @ pli_events w (plis_due w ps) @ [EvUnlock listLock]\<rparr>)"
  by (simp add: DispatchKeyFrame_def Lock_def Unlock_def keyframe_peers_effect plis_due_def
      pli_events_def fun_upd_idem)

text \<open>
  C9. A keyframe dispatch that finds the lock free returns, and what it adds to the trace
  is: the write lock taken, then for every peer of the list in order and every receiver
  of that peer with a track, in order, exactly one \<^verbatim>\<open>WriteRTCP\<close> of a single Picture Loss
  Indication whose media SSRC is that track's SSRC, then the lock released. A failing
  write (\<open>fault\<close> true at its tick) shows as a failed write in the trace and changes
  nothing else: the scan goes on, and the function has no error to return.
\<close>

theorem DispatchKeyFrame_plis:
  assumes "\<not> locks w listLock"
  shows "\<exists>w'. DispatchKeyFrame listLock ps w = Some w' \<and>
           trace w' = trace w @ [EvLock listLock] @ pli_events w (plis_due w ps) @ [EvUnlock listLock] \<and>
           \<not> locks w' listLock \<and> pcs w' = pcs w"
  using assms by (simp add: DispatchKeyFrame_effect)

theorem DispatchKeyFrame_plis_witness:
  "\<not> locks keyframe_world 7 \<and>
   (\<exists>w'. DispatchKeyFrame 7 [peer_rec 2 ''a'', peer_rec 3 ''b''] keyframe_world = Some w' \<and>
      trace w' = [EvLock 7,
                  EvWriteRTCP 2 [\<lparr>SenderSSRC = 0, MediaSSRC = 5\<rparr>] False,
                  EvWriteRTCP 2 [\<lparr>SenderSSRC = 0, MediaSSRC = 6\<rparr>] True,
                  EvUnlock 7] \<and>
      \<not> locks w' 7)"
proof -
  have free: "\<not> locks keyframe_world 7"
    by (simp add: keyframe_world_def calm_world_def)
  have due: "plis_due keyframe_world [peer_rec 2 ''a'', peer_rec 3 ''b''] =
             [(2, \<lparr>SenderSSRC = 0, MediaSSRC = 5\<rparr>), (2, \<lparr>SenderSSRC = 0, MediaSSRC = 6\<rparr>)]"
    by (simp add: plis_due_def keyframe_world_def calm_world_def peer_rec_def idle_pc_def
        receiver_tracks_def remote_def)
  have ev: "pli_events keyframe_world
              [(2, \<lparr>SenderSSRC = 0, MediaSSRC = 5\<rparr>), (2, \<lparr>SenderSSRC = 0, MediaSSRC = 6\<rparr>)] =
            [EvWriteRTCP 2 [\<lparr>SenderSSRC = 0, MediaSSRC = 5\<rparr>] False,
             EvWriteRTCP 2 [\<lparr>SenderSSRC = 0, MediaSSRC = 6\<rparr>] True]"
    by (simp add: pli_events_def keyframe_world_def calm_world_def enumerate_simps)
  have tr: "trace keyframe_world = []"
    by (simp add: keyframe_world_def calm_world_def)
  show ?thesis
    using free DispatchKeyFrame_plis [OF free, of "[peer_rec 2 ''a'', peer_rec 3 ''b'']"]
    by (auto simp add: due ev tr)
qed

lemma frame_refl: "frame w w" by (simp add: frame_def)
lemma frame_trans: "frame w w1 \<Longrightarrow> frame w1 w2 \<Longrightarrow> frame w w2" by (simp add: frame_def)

lemma RemoveTrack_frame: "RemoveTrack pc j w = (err, w') \<Longrightarrow> frame w w' \<and> trace w' = trace w"
  by (auto simp: RemoveTrack_def lib_call_def set_pc_def frame_def split: if_splits)

lemma AddTrack_frame: "AddTrack pc t w = (err, w') \<Longrightarrow> frame w w' \<and> trace w' = trace w"
  by (auto simp: AddTrack_def lib_call_def set_pc_def frame_def split: if_splits)

lemma detach_stale_frame:
  "detach_stale pc tls j ss ex w = (err, ex', w') \<Longrightarrow> frame w w' \<and> trace w' = trace w"
proof (induction pc tls j ss ex w rule: detach_stale.induct)
  case (1 pc trackLocals j existingSenders w)
  then show ?case by (simp add: frame_refl)
next
  case (2 pc trackLocals j ss existingSenders w)
  then show ?case by simp
next
  case (3 pc trackLocals j t ss existingSenders w)
  show ?case
  proof (cases "map_of trackLocals (tl_ID t) \<noteq> None")
    case True
    with 3 show ?thesis by simp
  next
    case False
    obtain e w1 where r: "RemoveTrack pc j w = (e, w1)" by fastforce
    note f1 = RemoveTrack_frame[OF r]
    show ?thesis
    proof (cases e)
      case True
      with 3(3) False r f1 show ?thesis by simp
    next
      case e: False
      from 3(3) False r e have "detach_stale pc trackLocals (Suc j) ss (insert (tl_ID t) existingSenders) w1 = (err, ex', w')"
        by simp
      from 3(2)[OF False r[symmetric] e this] f1 show ?thesis
        by (auto intro: frame_trans)
    qed
  qed
qed

lemma detach_stale_ok:
  assumes "detach_stale pc tls j ss ex w = (False, ex', w')"
    and "drop j (GetSenders (pcs w pc)) = ss"
  shows "ex' = ex \<union> set (sender_ids ss) \<and>
         pcs w' q = (if q = pc
                     then (pcs w pc)\<lparr>GetSenders := take j (GetSenders (pcs w pc)) @ kept tls ss\<rparr>
                     else pcs w q)"
  using assms
proof (induction pc tls j ss ex w rule: detach_stale.induct)
  case (1 pc trackLocals j existingSenders w)
  then show ?case by (simp add: sender_ids_def kept_def)
next
  case (2 pc trackLocals j ss existingSenders w)
  from 2(3) have lt: "j < length (GetSenders (pcs w pc))"
    by (metis drop_all linorder_not_less list.distinct(1))
  from 2(3) have d: "drop (Suc j) (GetSenders (pcs w pc)) = ss"
    by (metis drop_Suc list.sel(3) tl_drop)
  from 2(3) lt have n: "GetSenders (pcs w pc) ! j = None"
    by (metis Cons_nth_drop_Suc list.inject)
  from 2(2) have "detach_stale pc trackLocals (Suc j) ss existingSenders w = (False, ex', w')"
    by simp
  from 2(1)[OF this d] show ?case using lt n
    by (simp add: sender_ids_def kept_def take_Suc_conv_app_nth)
next
  case (3 pc trackLocals j t ss existingSenders w)
  let ?S = "GetSenders (pcs w pc)"
  from 3(4) have lt: "j < length ?S"
    by (metis drop_all linorder_not_less list.distinct(1))
  from 3(4) have d: "drop (Suc j) ?S = ss"
    by (metis drop_Suc list.sel(3) tl_drop)
  from 3(4) lt have n: "?S ! j = Some t"
    by (metis Cons_nth_drop_Suc list.inject)
  show ?case
  proof (cases "map_of trackLocals (tl_ID t) \<noteq> None")
    case True
    with 3(3) have "detach_stale pc trackLocals (Suc j) ss (insert (tl_ID t) existingSenders) w = (False, ex', w')"
      by simp
    from 3(1)[OF True this d] show ?thesis using lt n True
      by (simp add: sender_ids_def kept_def take_Suc_conv_app_nth)
  next
    case False
    obtain e w1 where r: "RemoveTrack pc j w = (e, w1)" by fastforce
    from 3(3) False r have e: "\<not> e" by (auto split: if_splits)
    from 3(3) False r e have rec: "detach_stale pc trackLocals (Suc j) ss (insert (tl_ID t) existingSenders) w1 = (False, ex', w')"
      by simp
    from r e have w1: "\<And>q. pcs w1 q = (if q = pc then (pcs w pc)\<lparr>GetSenders := ?S[j := None]\<rparr> else pcs w q)"
      by (auto simp: RemoveTrack_def lib_call_def set_pc_def split: if_splits)
    have d1: "drop (Suc j) (GetSenders (pcs w1 pc)) = ss"
      using d by (simp add: w1)
    from 3(2)[OF False r[symmetric] e rec d1] show ?thesis using lt n False
      by (simp add: w1 sender_ids_def kept_def take_Suc_conv_app_nth upd_conv_take_nth_drop)
  qed
qed

lemma attach_missing_frame:
  "attach_missing pc tls ex w = (err, w') \<Longrightarrow> frame w w' \<and> trace w' = trace w"
proof (induction pc tls ex w rule: attach_missing.induct)
  case (1 pc existingSenders w)
  then show ?case by (simp add: frame_refl)
next
  case (2 pc trackID t rest existingSenders w)
  show ?case
  proof (cases "trackID \<in> existingSenders")
    case True
    with 2 show ?thesis by simp
  next
    case False
    obtain e w1 where r: "AddTrack pc t w = (e, w1)" by fastforce
    note f1 = AddTrack_frame[OF r]
    show ?thesis
    proof (cases e)
      case True
      with 2(3) False r f1 show ?thesis by simp
    next
      case e: False
      from 2(3) False r e have "attach_missing pc rest existingSenders w1 = (err, w')"
        by simp
      from 2(2)[OF False r[symmetric] e this] f1 show ?thesis
        by (auto intro: frame_trans)
    qed
  qed
qed

lemma attach_missing_ok:
  assumes "attach_missing pc tls ex w = (False, w')"
  shows "pcs w' q = (if q = pc
                     then (pcs w pc)\<lparr>GetSenders := GetSenders (pcs w pc) @ missing tls ex\<rparr>
                     else pcs w q)"
  using assms
proof (induction pc tls ex w rule: attach_missing.induct)
  case (1 pc existingSenders w)
  then show ?case by (simp add: missing_def)
next
  case (2 pc trackID t rest existingSenders w)
  show ?case
  proof (cases "trackID \<in> existingSenders")
    case True
    with 2 show ?thesis by (simp add: missing_def)
  next
    case False
    obtain e w1 where r: "AddTrack pc t w = (e, w1)" by fastforce
    from 2(3) False r have e: "\<not> e" by (auto split: if_splits)
    from 2(3) False r e have rec: "attach_missing pc rest existingSenders w1 = (False, w')"
      by simp
    from r e have w1: "\<And>q. pcs w1 q = (if q = pc then (pcs w pc)\<lparr>GetSenders := GetSenders (pcs w pc) @ [Some t]\<rparr> else pcs w q)"
      by (auto simp: AddTrack_def lib_call_def set_pc_def split: if_splits)
    from 2(2)[OF False r[symmetric] e rec] show ?thesis using False
      by (simp add: w1 missing_def)
  qed
qed

lemma send_offer_frame:
  "send_offer p tn sn w = (err, w') \<Longrightarrow> frame w w'"
  by (auto simp: send_offer_def CreateOffer_def SetLocalDescription_def json_Marshal_def
      WriteJSON_def lib_call_def set_pc_def frame_def split: if_splits)

lemma send_offer_ok:
  assumes "send_offer p tn sn w = (False, w')"
  shows "pcs w' q = (if q = PeerConnection p
                     then (pcs w (PeerConnection p))\<lparr>LocalDescription :=
                            Some (offer_for (GetSenders (pcs w (PeerConnection p))))\<rparr>
                     else pcs w q)"
    and "trace w' = trace w @
           [EvWriteJSON (Websocket p)
              (offer_message (lib w) (offer_for (GetSenders (pcs w (PeerConnection p)))) tn sn) True]"
  using assms
  by (auto simp: send_offer_def CreateOffer_def SetLocalDescription_def json_Marshal_def
      WriteJSON_def lib_call_def set_pc_def offer_for_def offer_message_def offerData_def split: if_splits)

lemma sync_peer_frame:
  assumes "sync_peer tls tn sn p w = (err, w')"
  shows "frame w w'"
proof -
  obtain e1 ex w1 where d: "detach_stale (PeerConnection p) tls 0 (GetSenders (pcs w (PeerConnection p))) {} w = (e1, ex, w1)"
    by (metis prod_cases3)
  note f1 = detach_stale_frame[OF d]
  show ?thesis
  proof (cases e1)
    case True
    with assms d f1 show ?thesis by (simp add: sync_peer_def)
  next
    case e1: False
    obtain e2 w2 where a: "attach_missing (PeerConnection p) tls
        (ex \<union> receiver_ids (GetReceivers (pcs w1 (PeerConnection p)))) w1 = (e2, w2)"
      by fastforce
    note f2 = attach_missing_frame[OF a]
    show ?thesis
    proof (cases e2)
      case True
      with assms d e1 a f1 f2 show ?thesis by (auto simp: sync_peer_def intro: frame_trans)
    next
      case e2: False
      with assms d e1 a have "send_offer p tn sn w2 = (err, w')"
        by (simp add: sync_peer_def)
      from send_offer_frame[OF this] f1 f2 show ?thesis by (auto intro: frame_trans)
    qed
  qed
qed

lemma sync_peer_ok:
  assumes "sync_peer tls tn sn p w = (False, w')"
  shows "pcs w' q =
           (if q = PeerConnection p
            then (pcs w (PeerConnection p))
                   \<lparr>GetSenders := synced_senders tls (GetReceivers (pcs w (PeerConnection p)))
                                    (GetSenders (pcs w (PeerConnection p))),
                    LocalDescription := Some (offer_for
                       (synced_senders tls (GetReceivers (pcs w (PeerConnection p)))
                                    (GetSenders (pcs w (PeerConnection p)))))\<rparr>
            else pcs w q)"
    and "trace w' = trace w @
           [EvWriteJSON (Websocket p)
              (offer_message (lib w) (offer_for
                 (synced_senders tls (GetReceivers (pcs w (PeerConnection p)))
                                    (GetSenders (pcs w (PeerConnection p))))) tn sn) True]"
proof -
  let ?pc = "PeerConnection p"
  obtain e1 ex w1 where d: "detach_stale ?pc tls 0 (GetSenders (pcs w ?pc)) {} w = (e1, ex, w1)"
    by (metis prod_cases3)
  from assms d have e1: "\<not> e1" by (auto simp: sync_peer_def split: if_splits)
  obtain e2 w2 where a: "attach_missing ?pc tls (ex \<union> receiver_ids (GetReceivers (pcs w1 ?pc))) w1 = (e2, w2)"
    by fastforce
  from assms d e1 a have e2: "\<not> e2" by (auto simp: sync_peer_def split: if_splits)
  from assms d e1 a e2 have s: "send_offer p tn sn w2 = (False, w')"
    by (simp add: sync_peer_def)
  from d e1 have d': "detach_stale ?pc tls 0 (GetSenders (pcs w ?pc)) {} w = (False, ex, w1)" by simp
  have dd: "drop 0 (GetSenders (pcs w ?pc)) = GetSenders (pcs w ?pc)" by simp
  note D = detach_stale_ok[OF d' dd]
  from a e2 have a': "attach_missing ?pc tls (ex \<union> receiver_ids (GetReceivers (pcs w1 ?pc))) w1 = (False, w2)" by simp
  note A = attach_missing_ok[OF a']
  note S = send_offer_ok[OF s]
  have ex: "ex = set (sender_ids (GetSenders (pcs w ?pc)))" using D[of ?pc] by simp
  have p1: "\<And>q. pcs w1 q = (if q = ?pc then (pcs w ?pc)\<lparr>GetSenders := kept tls (GetSenders (pcs w ?pc))\<rparr> else pcs w q)"
    using D by simp
  have t1: "trace w1 = trace w" using detach_stale_frame[OF d] by simp
  have t2: "trace w2 = trace w1" using attach_missing_frame[OF a] by simp
  have l2: "lib w2 = lib w" using attach_missing_frame[OF a] detach_stale_frame[OF d]
    by (simp add: frame_def)
  show "pcs w' q =
           (if q = PeerConnection p
            then (pcs w (PeerConnection p))
                   \<lparr>GetSenders := synced_senders tls (GetReceivers (pcs w (PeerConnection p)))
                                    (GetSenders (pcs w (PeerConnection p))),
                    LocalDescription := Some (offer_for
                       (synced_senders tls (GetReceivers (pcs w (PeerConnection p)))
                                    (GetSenders (pcs w (PeerConnection p)))))\<rparr>
            else pcs w q)"
    by (simp add: S(1) A p1 ex synced_senders_def)
  show "trace w' = trace w @
           [EvWriteJSON (Websocket p)
              (offer_message (lib w) (offer_for
                 (synced_senders tls (GetReceivers (pcs w (PeerConnection p)))
                                    (GetSenders (pcs w (PeerConnection p))))) tn sn) True]"
    by (simp add: S(2) A p1 ex synced_senders_def t1 t2 l2)
qed

lemma sender_ids_append: "sender_ids (xs @ ys) = sender_ids xs @ sender_ids ys"
  by (simp add: sender_ids_def List.map_filter_def)

lemma set_map_filter_id: "set (List.map_filter id ss) = {t. Some t \<in> set ss}"
  by (induction ss) (auto split: option.splits)

lemma set_sender_ids: "set (sender_ids ss) = {tl_ID t |t. Some t \<in> set ss}"
  by (auto simp: sender_ids_def set_map_filter_id)

lemma set_sender_ids_kept:
  "set (sender_ids (kept tls ss)) = set (sender_ids ss) \<inter> fst ` set tls"
proof -
  have "\<And>t. Some t \<in> set (kept tls ss) \<longleftrightarrow> Some t \<in> set ss \<and> tl_ID t \<in> fst ` set tls"
    by (induction ss) (auto simp: kept_def map_of_eq_None_iff split: option.splits)
  then show ?thesis
    unfolding set_sender_ids by blast
qed

lemma set_sender_ids_missing:
  assumes "own_keys tls"
  shows "set (sender_ids (missing tls ex)) = fst ` set tls - ex"
proof -
  have "\<And>t. Some t \<in> set (missing tls ex) \<longleftrightarrow> (\<exists>k. (k, t) \<in> set tls \<and> k \<notin> ex)"
    by (auto simp: missing_def)
  moreover have "\<And>k t. (k, t) \<in> set tls \<Longrightarrow> tl_ID t = k"
    using assms by (auto simp: own_keys_def)
  ultimately show ?thesis
    unfolding set_sender_ids by force
qed

lemma synced_in_sync:
  assumes "own_keys tls" and "loop_free tls c"
  shows "in_sync tls (c\<lparr>GetSenders := synced_senders tls (GetReceivers c) (GetSenders c), LocalDescription := d\<rparr>)"
  using assms
  by (auto simp: in_sync_def loop_free_def sending_def receiving_def synced_senders_def
      sender_ids_append set_sender_ids_kept set_sender_ids_missing)

lemma in_sync_loop_free: "in_sync tls c \<Longrightarrow> loop_free tls c"
  by (auto simp: in_sync_def loop_free_def)

lemma scan_peers_in_sync:
  assumes "scan_peers tls tn sn i ps w = (Synced, w')"
    and "own_keys tls"
    and "\<forall>p \<in> set ps. loop_free tls (pcs w (PeerConnection p))"
  shows "(\<forall>p \<in> set ps. in_sync tls (pcs w' (PeerConnection p))) \<and>
         (\<forall>q. q \<notin> PeerConnection ` set ps \<longrightarrow> pcs w' q = pcs w q)"
  using assms
proof (induction ps arbitrary: i w)
  case Nil
  then show ?case by simp
next
  case (Cons p ps)
  let ?pc = "PeerConnection p"
  obtain e w1 where sp: "sync_peer tls tn sn p w = (e, w1)" by fastforce
  from Cons.prems(1) sp have e: "\<not> e" and rest: "scan_peers tls tn sn (Suc i) ps w1 = (Synced, w')"
    by (auto split: if_splits)
  from sp e have sp': "sync_peer tls tn sn p w = (False, w1)" by simp
  note P = sync_peer_ok(1)[OF sp']
  have here: "in_sync tls (pcs w1 ?pc)"
    using synced_in_sync[OF Cons.prems(2)] Cons.prems(3) by (simp add: P)
  have others: "\<And>q. q \<noteq> ?pc \<Longrightarrow> pcs w1 q = pcs w q"
    by (simp add: P)
  have lf: "\<forall>p' \<in> set ps. loop_free tls (pcs w1 (PeerConnection p'))"
  proof
    fix p' assume "p' \<in> set ps"
    show "loop_free tls (pcs w1 (PeerConnection p'))"
    proof (cases "PeerConnection p' = ?pc")
      case True
      then show ?thesis using here by (simp add: in_sync_loop_free)
    next
      case False
      then show ?thesis using others Cons.prems(3) \<open>p' \<in> set ps\<close> by simp
    qed
  qed
  note IH = Cons.IH[OF rest Cons.prems(2) lf]
  have head: "in_sync tls (pcs w' ?pc)"
  proof (cases "?pc \<in> PeerConnection ` set ps")
    case True
    then show ?thesis using IH by auto
  next
    case False
    then have "pcs w' ?pc = pcs w1 ?pc" using IH by simp
    then show ?thesis using here by simp
  qed
  show ?case using IH head others by auto
qed

text \<open>
  C1 (as amended). Take a synchronisation round (one attempt) that completes without
  signalling retry, over a map in which every forwarding track is stored under its own
  identifier, from a state in which no peer of the scanned list already has a sender
  whose track identifier is both a key of the map and the identifier of a track that
  peer receives. Then the list is unchanged, and for every peer of it the set of track
  identifiers on its senders equals the key set of the map minus the identifiers of the
  tracks it receives.
\<close>

theorem attemptSync_senders:
  assumes "own_keys trackLocals"
    and "\<forall>p \<in> set (elems peerConnections). loop_free trackLocals (pcs w (PeerConnection p))"
    and "attemptSync trackLocals trackNames streamNames peerConnections w = (False, peerConnections', w')"
  shows "peerConnections' = peerConnections \<and>
         (\<forall>p \<in> set (elems peerConnections).
            sending (pcs w' (PeerConnection p)) =
              fst ` set trackLocals - receiving (pcs w' (PeerConnection p)))"
proof -
  obtain r w1 where sc: "scan_peers trackLocals trackNames streamNames 0 (elems peerConnections) w = (r, w1)"
    by fastforce
  from assms(3) sc have r: "r = Synced" and eq: "peerConnections' = peerConnections" "w' = w1"
    by (auto simp: attemptSync_def split: scan.splits)
  from scan_peers_in_sync[OF sc[unfolded r] assms(1,2)] eq show ?thesis
    by (simp add: in_sync_def)
qed

lemma scan_peers_offers:
  assumes "scan_peers tls tn sn i ps w = (Synced, w')"
  shows "\<exists>ds. length ds = length ps \<and>
           trace w' = trace w @
             map2 (\<lambda>p d. EvWriteJSON (Websocket p) (offer_message (lib w) d tn sn) True) ps ds \<and>
           (\<forall>d \<in> set ds. sd_Type d = ''offer'') \<and>
           (\<forall>p \<in> set ps. LocalDescription (pcs w' (PeerConnection p)) =
                            Some (offer_for (GetSenders (pcs w' (PeerConnection p))))) \<and>
           (\<forall>q. q \<notin> PeerConnection ` set ps \<longrightarrow> pcs w' q = pcs w q) \<and>
           lib w' = lib w"
  using assms
proof (induction ps arbitrary: i w)
  case Nil
  then show ?case by simp
next
  case (Cons p ps)
  let ?pc = "PeerConnection p"
  obtain e w1 where sp: "sync_peer tls tn sn p w = (e, w1)" by fastforce
  from Cons.prems sp have e: "\<not> e" and rest: "scan_peers tls tn sn (Suc i) ps w1 = (Synced, w')"
    by (auto split: if_splits)
  from sp e have sp': "sync_peer tls tn sn p w = (False, w1)" by simp
  note P = sync_peer_ok(1)[OF sp']
  note T = sync_peer_ok(2)[OF sp']
  let ?d0 = "offer_for (synced_senders tls (GetReceivers (pcs w ?pc)) (GetSenders (pcs w ?pc)))"
  have l1: "lib w1 = lib w" using sync_peer_frame[OF sp] by (simp add: frame_def)
  have here: "LocalDescription (pcs w1 ?pc) = Some (offer_for (GetSenders (pcs w1 ?pc)))"
    by (simp add: P)
  have others: "\<And>q. q \<noteq> ?pc \<Longrightarrow> pcs w1 q = pcs w q"
    by (simp add: P)
  from Cons.IH[OF rest] obtain ds where
    len: "length ds = length ps" and
    tr: "trace w' = trace w1 @
           map2 (\<lambda>p d. EvWriteJSON (Websocket p) (offer_message (lib w1) d tn sn) True) ps ds" and
    ty: "\<forall>d \<in> set ds. sd_Type d = ''offer''" and
    ld: "\<forall>p \<in> set ps. LocalDescription (pcs w' (PeerConnection p)) =
                            Some (offer_for (GetSenders (pcs w' (PeerConnection p))))" and
    fr: "\<forall>q. q \<notin> PeerConnection ` set ps \<longrightarrow> pcs w' q = pcs w1 q" and
    l': "lib w' = lib w1"
    by blast
  have head: "LocalDescription (pcs w' ?pc) = Some (offer_for (GetSenders (pcs w' ?pc)))"
  proof (cases "?pc \<in> PeerConnection ` set ps")
    case True
    then show ?thesis using ld by auto
  next
    case False
    then have "pcs w' ?pc = pcs w1 ?pc" using fr by simp
    then show ?thesis using here by simp
  qed
  have "length (?d0 # ds) = length (p # ps)" using len by simp
  moreover have "trace w' = trace w @
      map2 (\<lambda>p d. EvWriteJSON (Websocket p) (offer_message (lib w) d tn sn) True) (p # ps) (?d0 # ds)"
    by (simp add: tr T l1)
  moreover have "\<forall>d \<in> set (?d0 # ds). sd_Type d = ''offer''"
    using ty by (simp add: offer_for_def)
  moreover have "\<forall>p' \<in> set (p # ps). LocalDescription (pcs w' (PeerConnection p')) =
                            Some (offer_for (GetSenders (pcs w' (PeerConnection p'))))"
    using ld head by simp
  moreover have "\<forall>q. q \<notin> PeerConnection ` set (p # ps) \<longrightarrow> pcs w' q = pcs w q"
    using fr others by simp
  moreover have "lib w' = lib w" using l' l1 by simp
  ultimately show ?case by blast
qed

text \<open>
  C10. When the body of the scan runs for a peer (its connection is not closed) and
  returns without error, the local description of the peer's connection is the offer for
  the senders it then has, and exactly one message was written to the peer's websocket:
  event \<^verbatim>\<open>offer\<close>, data the marshalled map of \<^verbatim>\<open>offer\<close>, \<^verbatim>\<open>trackNames\<close> and
  \<^verbatim>\<open>streamNames\<close>. Nothing is assumed about senders added or removed. A completed
  attempt writes one such message per peer of the list, in order, and nothing else.
\<close>

theorem attemptSync_offers:
  "(sync_peer trackLocals trackNames streamNames p w = (False, w1) \<longrightarrow>
      LocalDescription (pcs w1 (PeerConnection p)) =
        Some (offer_for (GetSenders (pcs w1 (PeerConnection p)))) \<and>
      trace w1 = trace w @
        [EvWriteJSON (Websocket p)
           (offer_message (lib w) (offer_for (GetSenders (pcs w1 (PeerConnection p))))
              trackNames streamNames) True]) \<and>
   (attemptSync trackLocals trackNames streamNames peerConnections w = (False, peerConnections', w') \<longrightarrow>
      (\<exists>ds. length ds = length (elems peerConnections) \<and>
         trace w' = trace w @
           map2 (\<lambda>p d. EvWriteJSON (Websocket p) (offer_message (lib w) d trackNames streamNames) True)
             (elems peerConnections) ds \<and>
         (\<forall>d \<in> set ds. sd_Type d = ''offer'') \<and>
         (\<forall>p \<in> set (elems peerConnections).
            LocalDescription (pcs w' (PeerConnection p)) =
              Some (offer_for (GetSenders (pcs w' (PeerConnection p)))))))"
proof (intro conjI impI)
  assume sp: "sync_peer trackLocals trackNames streamNames p w = (False, w1)"
  show "LocalDescription (pcs w1 (PeerConnection p)) =
        Some (offer_for (GetSenders (pcs w1 (PeerConnection p))))"
    by (simp add: sync_peer_ok(1)[OF sp])
  show "trace w1 = trace w @
        [EvWriteJSON (Websocket p)
           (offer_message (lib w) (offer_for (GetSenders (pcs w1 (PeerConnection p))))
              trackNames streamNames) True]"
    by (simp add: sync_peer_ok[OF sp])
next
  assume at: "attemptSync trackLocals trackNames streamNames peerConnections w = (False, peerConnections', w')"
  obtain r w2 where sc: "scan_peers trackLocals trackNames streamNames 0 (elems peerConnections) w = (r, w2)"
    by fastforce
  from at sc have r: "r = Synced" and eq: "w' = w2"
    by (auto simp: attemptSync_def split: scan.splits)
  from scan_peers_offers[OF sc[unfolded r]] eq
  show "\<exists>ds. length ds = length (elems peerConnections) \<and>
         trace w' = trace w @
           map2 (\<lambda>p d. EvWriteJSON (Websocket p) (offer_message (lib w) d trackNames streamNames) True)
             (elems peerConnections) ds \<and>
         (\<forall>d \<in> set ds. sd_Type d = ''offer'') \<and>
         (\<forall>p \<in> set (elems peerConnections).
            LocalDescription (pcs w' (PeerConnection p)) =
              Some (offer_for (GetSenders (pcs w' (PeerConnection p)))))"
    by blast
qed

lemmas sample_defs = calm_world_def idle_pc_def peer_rec_def remote_def forwarding_def two_peers_def
  one_track_def fresh_world_def synced_world_def loopback_world_def closed_world_def failing_world_def
  deaf_library_def empty_room_def audio_track_def bob_alone_def both_peers_def room_of_two_def
  room_of_three_def join_library_def join_world_def open_room_def

lemmas sync_defs = attemptSync_def elems_def sync_peer_def send_offer_def CreateOffer_def
  SetLocalDescription_def json_Marshal_def WriteJSON_def AddTrack_def RemoveTrack_def lib_call_def
  set_pc_def receiver_ids_def receiver_tracks_def sender_ids_def splice_def

lemma scan_peers_frame:
  "scan_peers tls tn sn i ps w = (r, w') \<Longrightarrow> frame w w'"
proof (induction ps arbitrary: i w)
  case Nil
  then show ?case by (simp add: frame_refl)
next
  case (Cons p ps)
  show ?case
  proof (cases "ConnectionState (pcs w (PeerConnection p)) = PeerConnectionStateClosed")
    case True
    with Cons.prems show ?thesis by (simp add: frame_refl)
  next
    case False
    obtain e w1 where sp: "sync_peer tls tn sn p w = (e, w1)" by fastforce
    note f1 = sync_peer_frame[OF sp]
    show ?thesis
    proof (cases e)
      case True
      with Cons.prems False sp f1 show ?thesis by simp
    next
      case e: False
      with Cons.prems False sp have "scan_peers tls tn sn (Suc i) ps w1 = (r, w')" by simp
      from Cons.IH[OF this] f1 show ?thesis by (rule frame_trans[rotated])
    qed
  qed
qed

lemma attemptSync_frame:
  "attemptSync tls tn sn sl w = (r, sl', w') \<Longrightarrow> frame w w'"
  by (auto simp: attemptSync_def split: prod.splits scan.splits dest: scan_peers_frame)

lemma sync_loop_attempts:
  assumes "unat a + n = 25"
    and "sync_loop l tls tn sn a sl w = (sl', w')"
  shows "(\<exists>k<n. \<exists>slk wk. attempts tls tn sn k sl w = Some (slk, wk) \<and>
            attemptSync tls tn sn slk wk = (False, sl', w')) \<or>
         (\<exists>wn. attempts tls tn sn n sl w = Some (sl', wn) \<and>
            w' = wn\<lparr>timers := timers wn @
                   [\<lparr>rs_delay = 3, rs_listLock = l, rs_peerConnections = sl'\<rparr>]\<rparr>)"
  using assms
proof (induction n arbitrary: a sl w)
  case 0
  then have "unat a = unat (25 :: 64 word)" by simp
  then have a: "a = 25" by (simp only: word_unat_eq_iff)
  with 0(2) show ?case by (auto simp: sync_loop.simps[of l tls tn sn 25])
next
  case (Suc n)
  from Suc.prems(1) have lt: "unat a < 25" by simp
  then have ne: "a \<noteq> 25" by auto
  from lt have "unat a + unat (1 :: 64 word) < 2 ^ LENGTH(64)" by simp
  then have "unat (a + 1) = unat a + unat (1 :: 64 word)" by (simp only: unat_add_lem[THEN iffD1])
  with Suc.prems(1) have step: "unat (a + 1) + n = 25" by simp
  obtain t sl1 w1 where at: "attemptSync tls tn sn sl w = (t, sl1, w1)" by (metis prod_cases3)
  show ?case
  proof (cases t)
    case False
    with Suc.prems(2) ne at have "sl' = sl1" "w' = w1"
      by (simp_all add: sync_loop.simps[of l tls tn sn a])
    with at False have "attempts tls tn sn 0 sl w = Some (sl, w) \<and>
            attemptSync tls tn sn sl w = (False, sl', w')" by simp
    then show ?thesis by blast
  next
    case True
    with Suc.prems(2) ne at have rec: "sync_loop l tls tn sn (a + 1) sl1 w1 = (sl', w')"
      by (simp add: sync_loop.simps[of l tls tn sn a])
    from Suc.IH[OF step rec] show ?thesis
    proof
      assume "\<exists>k<n. \<exists>slk wk. attempts tls tn sn k sl1 w1 = Some (slk, wk) \<and>
            attemptSync tls tn sn slk wk = (False, sl', w')"
      then obtain k slk wk where k: "k < n" "attempts tls tn sn k sl1 w1 = Some (slk, wk)"
        "attemptSync tls tn sn slk wk = (False, sl', w')" by blast
      with at True have "Suc k < Suc n \<and> attempts tls tn sn (Suc k) sl w = Some (slk, wk) \<and>
            attemptSync tls tn sn slk wk = (False, sl', w')" by simp
      then show ?thesis by blast
    next
      assume "\<exists>wn. attempts tls tn sn n sl1 w1 = Some (sl', wn) \<and>
            w' = wn\<lparr>timers := timers wn @
                   [\<lparr>rs_delay = 3, rs_listLock = l, rs_peerConnections = sl'\<rparr>]\<rparr>"
      with at True show ?thesis by simp
    qed
  qed
qed

lemma attempts_frame:
  "attempts tls tn sn k sl w = Some (sl', w') \<Longrightarrow> frame w w'"
proof (induction k arbitrary: sl w)
  case 0
  then show ?case by (simp add: frame_refl)
next
  case (Suc k)
  obtain t sl1 w1 where at: "attemptSync tls tn sn sl w = (t, sl1, w1)" by (metis prod_cases3)
  with Suc.prems have "attempts tls tn sn k sl1 w1 = Some (sl', w')" by (auto split: if_splits)
  from Suc.IH[OF this] attemptSync_frame[OF at] show ?case by (rule frame_trans[rotated])
qed

text \<open>
  C2. A call that finds the lock free returns, with the lock free again. Between taking
  the lock and the deferred unlock and keyframe dispatch it made either \<open>k + 1 \<le> 25\<close>
  attempts, the last of which did not signal retry, and started no goroutine; or exactly
  25 attempts that all signalled retry, after which it started exactly one goroutine
  that sleeps 3 seconds before it synchronises again with the same lock and the slice as
  the attempts left it, and made no further attempt.
\<close>

theorem SignalPeerConnections_bounded:
  assumes "\<not> locks w listLock"
  shows "\<exists>sl' w'. SignalPeerConnections listLock trackLocals peerConnections trackNames streamNames w
             = Some (sl', w') \<and>
           \<not> locks w' listLock \<and>
           (\<exists>w1 w2. Lock listLock w = Some w1 \<and>
              DispatchKeyFrame listLock (elems sl') (Unlock listLock w2) = Some w' \<and>
              ((\<exists>k<25. \<exists>slk wk.
                   attempts trackLocals trackNames streamNames k
                     \<lparr>sl_array = peerConnections, sl_len = length peerConnections\<rparr> w1 = Some (slk, wk) \<and>
                   attemptSync trackLocals trackNames streamNames slk wk = (False, sl', w2) \<and>
                   timers w' = timers w) \<or>
               (\<exists>w25.
                   attempts trackLocals trackNames streamNames 25
                     \<lparr>sl_array = peerConnections, sl_len = length peerConnections\<rparr> w1 = Some (sl', w25) \<and>
                   w2 = w25\<lparr>timers := timers w25 @
                          [\<lparr>rs_delay = 3, rs_listLock = listLock, rs_peerConnections = sl'\<rparr>]\<rparr> \<and>
                   timers w' = timers w @
                          [\<lparr>rs_delay = 3, rs_listLock = listLock, rs_peerConnections = sl'\<rparr>])))"
proof -
  let ?sl0 = "\<lparr>sl_array = peerConnections, sl_len = length peerConnections\<rparr>"
  let ?w1 = "w\<lparr>locks := (locks w)(listLock := True), trace := trace w @ [EvLock listLock]\<rparr>"
  have lk: "Lock listLock w = Some ?w1" using assms by (simp add: Lock_def)
  obtain sl' w2 where lp: "sync_loop listLock trackLocals trackNames streamNames 0 ?sl0 ?w1 = (sl', w2)"
    by fastforce
  have free: "\<not> locks (Unlock listLock w2) listLock" by (simp add: Unlock_def)
  note dk = DispatchKeyFrame_effect[OF free, of "elems sl'"]
  let ?w' = "(Unlock listLock w2)\<lparr>ticks := ticks (Unlock listLock w2) + length (plis_due (Unlock listLock w2) (elems sl')),
             trace := trace (Unlock listLock w2) @ [EvLock listLock] @ pli_events (Unlock listLock w2) (plis_due (Unlock listLock w2) (elems sl')) @ [EvUnlock listLock]\<rparr>"
  have res: "SignalPeerConnections listLock trackLocals peerConnections trackNames streamNames w = Some (sl', ?w')"
    by (simp add: SignalPeerConnections_def lk lp dk del: sync_loop.simps)
  have tm: "timers ?w' = timers w2" by (simp add: Unlock_def)
  have tm1: "timers ?w1 = timers w" by simp
  have "unat (0 :: 64 word) + 25 = 25" by simp
  from sync_loop_attempts[OF this lp]
  have "(\<exists>k<25. \<exists>slk wk. attempts trackLocals trackNames streamNames k ?sl0 ?w1 = Some (slk, wk) \<and>
            attemptSync trackLocals trackNames streamNames slk wk = (False, sl', w2) \<and> timers ?w' = timers w) \<or>
         (\<exists>w25. attempts trackLocals trackNames streamNames 25 ?sl0 ?w1 = Some (sl', w25) \<and>
            w2 = w25\<lparr>timers := timers w25 @
                   [\<lparr>rs_delay = 3, rs_listLock = listLock, rs_peerConnections = sl'\<rparr>]\<rparr> \<and>
            timers ?w' = timers w @ [\<lparr>rs_delay = 3, rs_listLock = listLock, rs_peerConnections = sl'\<rparr>])"
  proof
    assume "\<exists>k<25. \<exists>slk wk. attempts trackLocals trackNames streamNames k ?sl0 ?w1 = Some (slk, wk) \<and>
            attemptSync trackLocals trackNames streamNames slk wk = (False, sl', w2)"
    then obtain k slk wk where k: "k < 25"
      "attempts trackLocals trackNames streamNames k ?sl0 ?w1 = Some (slk, wk)"
      "attemptSync trackLocals trackNames streamNames slk wk = (False, sl', w2)" by blast
    from attempts_frame[OF k(2)] attemptSync_frame[OF k(3)] have "timers w2 = timers ?w1"
      by (simp add: frame_def)
    with k tm tm1 show ?thesis by (metis (no_types, lifting))
  next
    assume "\<exists>wn. attempts trackLocals trackNames streamNames 25 ?sl0 ?w1 = Some (sl', wn) \<and>
            w2 = wn\<lparr>timers := timers wn @
                   [\<lparr>rs_delay = 3, rs_listLock = listLock, rs_peerConnections = sl'\<rparr>]\<rparr>"
    then obtain wn where n: "attempts trackLocals trackNames streamNames 25 ?sl0 ?w1 = Some (sl', wn)"
      "w2 = wn\<lparr>timers := timers wn @
                   [\<lparr>rs_delay = 3, rs_listLock = listLock, rs_peerConnections = sl'\<rparr>]\<rparr>" by blast
    from attempts_frame[OF n(1)] have "timers wn = timers ?w1" by (simp add: frame_def)
    with n tm tm1 have "timers ?w' = timers w @ [\<lparr>rs_delay = 3, rs_listLock = listLock, rs_peerConnections = sl'\<rparr>]"
      by simp
    with n show ?thesis by blast
  qed
  moreover have "\<not> locks ?w' listLock" by (simp add: Unlock_def)
  moreover have "DispatchKeyFrame listLock (elems sl') (Unlock listLock w2) = Some ?w'" by (rule dk)
  ultimately show ?thesis using res lk by blast
qed

theorem attemptSync_senders_witness:
  "own_keys one_track \<and>
   loop_free one_track (pcs fresh_world 2) \<and> loop_free one_track (pcs fresh_world 3) \<and>
   fst (attemptSync one_track [] [] both_peers fresh_world) = False \<and>
   sending (pcs (snd (snd (attemptSync one_track [] [] both_peers fresh_world))) 2) = {} \<and>
   sending (pcs (snd (snd (attemptSync one_track [] [] both_peers fresh_world))) 3) = {''t-A''}"
proof -
  let ?W = "snd (snd (attemptSync one_track [] [] both_peers fresh_world))"
  have k: "own_keys one_track"
    by (simp add: own_keys_def one_track_def forwarding_def)
  have l2: "loop_free one_track (pcs fresh_world 2)" and l3: "loop_free one_track (pcs fresh_world 3)"
    by (simp_all add: loop_free_def sending_def receiving_def sample_defs sync_defs)
  have lf: "\<forall>p \<in> set (elems both_peers). loop_free one_track (pcs fresh_world (PeerConnection p))"
    using l2 l3 by (simp add: elems_def both_peers_def two_peers_def peer_rec_def)
  have at: "attemptSync one_track [] [] both_peers fresh_world = (False, both_peers, ?W)"
    by (simp add: sample_defs sync_defs)
  have r2: "receiving (pcs ?W 2) = {''t-A''}" and r3: "receiving (pcs ?W 3) = {}"
    by (simp_all add: sample_defs sync_defs receiving_def)
  from attemptSync_senders[OF k lf at]
  have "sending (pcs ?W 2) = fst ` set one_track - receiving (pcs ?W 2)"
    and "sending (pcs ?W 3) = fst ` set one_track - receiving (pcs ?W 3)"
    by (simp_all add: elems_def both_peers_def two_peers_def peer_rec_def)
  then have "sending (pcs ?W 2) = {}" and "sending (pcs ?W 3) = {''t-A''}"
    unfolding r2 r3 by (simp_all add: one_track_def)
  moreover have "fst (attemptSync one_track [] [] both_peers fresh_world) = False"
    by (subst at) simp
  ultimately show ?thesis using k l2 l3 by blast
qed

text \<open>
  C1 as stated fails: Bob has a sender for the forwarding track \<^verbatim>\<open>audio\<close> and uploads a
  track with the identifier \<^verbatim>\<open>audio\<close> himself. The round completes without retry and
  leaves the sender in place: the loop over the senders only detaches tracks that left
  the map, and the receiver identifiers only stop tracks from being added.
\<close>

theorem attemptSync_loopback_counterexample:
  "fst (attemptSync audio_track [] [] bob_alone loopback_world) = False \<and>
   sending (pcs (snd (snd (attemptSync audio_track [] [] bob_alone loopback_world))) 3) \<noteq>
     fst ` set audio_track -
     receiving (pcs (snd (snd (attemptSync audio_track [] [] bob_alone loopback_world))) 3) \<and>
   ''audio'' \<in> sending (pcs (snd (snd (attemptSync audio_track [] [] bob_alone loopback_world))) 3)
              \<inter> receiving (pcs (snd (snd (attemptSync audio_track [] [] bob_alone loopback_world))) 3)"
  by (simp add: sample_defs sync_defs sending_def receiving_def)

theorem attemptSync_offers_witness:
  "fst (sync_peer one_track [] [] (peer_rec 3 ''Bob'') synced_world) = False \<and>
   GetSenders (pcs (snd (sync_peer one_track [] [] (peer_rec 3 ''Bob'') synced_world)) 3) =
     GetSenders (pcs synced_world 3) \<and>
   trace (snd (sync_peer one_track [] [] (peer_rec 3 ''Bob'') synced_world)) =
     [EvWriteJSON 3 (offer_message deaf_library (offer_for [Some (forwarding ''t-A'')]) [] []) True] \<and>
   fst (attemptSync one_track [] [] both_peers synced_world) = False \<and>
   (\<exists>d2 d3. trace (snd (snd (attemptSync one_track [] [] both_peers synced_world))) =
      [EvWriteJSON 2 (offer_message deaf_library d2 [] []) True,
       EvWriteJSON 3 (offer_message deaf_library d3 [] []) True])"
proof -
  let ?W1 = "snd (sync_peer one_track [] [] (peer_rec 3 ''Bob'') synced_world)"
  let ?W = "snd (snd (attemptSync one_track [] [] both_peers synced_world))"
  have sp: "sync_peer one_track [] [] (peer_rec 3 ''Bob'') synced_world = (False, ?W1)"
    by (simp add: sample_defs sync_defs)
  have at: "attemptSync one_track [] [] both_peers synced_world = (False, both_peers, ?W)"
    by (simp add: sample_defs sync_defs)
  have same: "GetSenders (pcs ?W1 3) = GetSenders (pcs synced_world 3)"
    by (simp add: sample_defs sync_defs)
  have s3: "GetSenders (pcs synced_world 3) = [Some (forwarding ''t-A'')]"
    by (simp add: sample_defs)
  note T = attemptSync_offers[of one_track "[]" "[]" "peer_rec 3 ''Bob''" synced_world ?W1
      both_peers both_peers ?W]
  from T sp have "trace ?W1 = trace synced_world @
        [EvWriteJSON (Websocket (peer_rec 3 ''Bob''))
           (offer_message (lib synced_world) (offer_for (GetSenders (pcs ?W1 (PeerConnection (peer_rec 3 ''Bob'')))))
              [] []) True]"
    by blast
  moreover have "PeerConnection (peer_rec 3 ''Bob'') = 3" "Websocket (peer_rec 3 ''Bob'') = 3"
    by (simp_all add: peer_rec_def)
  moreover have "lib synced_world = deaf_library" "trace synced_world = []"
    by (simp_all add: synced_world_def calm_world_def)
  ultimately have t1: "trace ?W1 =
     [EvWriteJSON 3 (offer_message deaf_library (offer_for [Some (forwarding ''t-A'')]) [] []) True]"
    by (simp only: same s3 append_Nil)
  from T at obtain ds where ds: "length ds = length (elems both_peers)"
      "trace ?W = trace synced_world @
           map2 (\<lambda>p d. EvWriteJSON (Websocket p) (offer_message (lib synced_world) d [] []) True)
             (elems both_peers) ds"
    by blast
  from ds(1) obtain d2 d3 where "ds = [d2, d3]"
    by (auto simp: elems_def both_peers_def two_peers_def length_Suc_conv)
  moreover have "elems both_peers = [peer_rec 2 ''Alice'', peer_rec 3 ''Bob'']"
    by (simp add: elems_def both_peers_def two_peers_def)
  moreover have "Websocket (peer_rec 2 ''Alice'') = 2" "Websocket (peer_rec 3 ''Bob'') = 3"
    by (simp_all add: peer_rec_def)
  moreover have "lib synced_world = deaf_library" "trace synced_world = []"
    by (simp_all add: synced_world_def calm_world_def)
  moreover note ds(2)
  ultimately have "trace ?W =
      [EvWriteJSON 2 (offer_message deaf_library d2 [] []) True,
       EvWriteJSON 3 (offer_message deaf_library d3 [] []) True]"
    by (simp only: append_Nil zip_Cons_Cons zip_Nil list.map prod.case)
  moreover have "fst (sync_peer one_track [] [] (peer_rec 3 ''Bob'') synced_world) = False"
    by (subst sp) simp
  moreover have "fst (attemptSync one_track [] [] both_peers synced_world) = False"
    by (subst at) simp
  ultimately show ?thesis using same t1 by blast
qed

theorem SignalPeerConnections_bounded_witness:
  "\<not> locks failing_world 0 \<and>
   (\<exists>sl' w'. SignalPeerConnections 0 [] [peer_rec 2 ''Alice''] [] [] failing_world = Some (sl', w') \<and>
      \<not> locks w' 0 \<and>
      timers w' = [\<lparr>rs_delay = 3, rs_listLock = 0, rs_peerConnections = sl'\<rparr>] \<and>
      ticks w' = 25 \<and> trace w' = [EvLock 0, EvUnlock 0, EvLock 0, EvUnlock 0])"
proof -
  have free: "\<not> locks failing_world 0"
    by (simp add: sample_defs)
  have ev: "\<exists>w'. SignalPeerConnections 0 [] [peer_rec 2 ''Alice''] [] [] failing_world =
               Some (\<lparr>sl_array = [peer_rec 2 ''Alice''], sl_len = 1\<rparr>, w') \<and>
             timers w' = [\<lparr>rs_delay = 3, rs_listLock = 0,
                           rs_peerConnections = \<lparr>sl_array = [peer_rec 2 ''Alice''], sl_len = 1\<rparr>\<rparr>] \<and>
             ticks w' = 25 \<and> trace w' = [EvLock 0, EvUnlock 0, EvLock 0, EvUnlock 0]"
    by (simp add: SignalPeerConnections_def Lock_def Unlock_def DispatchKeyFrame_def sync_loop.simps
        sample_defs sync_defs)
  from SignalPeerConnections_bounded[OF free, of "[]" "[peer_rec 2 ''Alice'']" "[]" "[]"]
  obtain sl' w' where r: "SignalPeerConnections 0 [] [peer_rec 2 ''Alice''] [] [] failing_world = Some (sl', w')"
    and l: "\<not> locks w' 0"
    by blast
  from ev r l free show ?thesis by auto
qed

text \<open>
  C6, the code at the failing input. Bob's connection is closed and its callback runs the
  synchroniser on the room. The attempt cuts Bob out of its own copy of the slice, but the
  room's list keeps its length: with Bob last it still reads Alice, Bob; with Carol after
  Bob it reads Alice, Carol, Carol.
\<close>

theorem SignalPeerConnections_keeps_closed_peer:
  "map_option (\<lambda>w'. PeerConnections (room_heap w' 0))
     (OnConnectionStateChange 0 3 PeerConnectionStateClosed room_of_two) =
     Some [peer_rec 2 ''Alice'', peer_rec 3 ''Bob''] \<and>
   map_option (\<lambda>w'. PeerConnections (room_heap w' 0))
     (OnConnectionStateChange 0 3 PeerConnectionStateClosed room_of_three) =
     Some [peer_rec 2 ''Alice'', peer_rec 4 ''Carol'', peer_rec 4 ''Carol''] \<and>
   ConnectionState (pcs room_of_two 3) = PeerConnectionStateClosed"
  by (simp add: OnConnectionStateChange_def signal_room_def upd_room_def SignalPeerConnections_def
      Lock_def Unlock_def DispatchKeyFrame_def sync_loop.simps sample_defs sync_defs)

text \<open>
  C3. Whenever the ingest loop has read \<open>buf\<close> and \<^verbatim>\<open>Unmarshal\<close> has turned it into the
  packet \<open>p\<close>, the loop hands exactly one packet \<open>q\<close> to \<^verbatim>\<open>WriteRTP\<close> of the forwarding
  track: its extension flag is false, its list of extensions is empty, and every other
  header field, the payload and the padding size are those of \<open>p\<close>. The loop goes on
  from \<open>q\<close> when the write succeeded and returns otherwise, so the statement covers
  every turn of the loop.
\<close>

theorem ingest_strips_extensions:
  assumes "rtp_Unmarshal (lib w) buf rtpPkt = Some p"
  shows "\<exists>q ok w'.
           ingest_packet trackLocal rtpPkt buf w = (if ok then Some q else None, w') \<and>
           ingest trackLocal rtpPkt (ReadOk buf # rest) w =
             (if ok then ingest trackLocal q rest w' else w') \<and>
           trace w' = trace w @ [EvWriteRTP trackLocal q ok] \<and>
           Extension q = False \<and> Extensions q = [] \<and>
           Version q = Version p \<and> Padding q = Padding p \<and> Marker q = Marker p \<and>
           PayloadType q = PayloadType p \<and> SequenceNumber q = SequenceNumber p \<and>
           Timestamp q = Timestamp p \<and> SSRC q = SSRC p \<and> CSRC q = CSRC p \<and>
           ExtensionProfile q = ExtensionProfile p \<and> Payload q = Payload p \<and>
           PaddingSize q = PaddingSize p"
proof -
  let ?q = "p\<lparr>Extension := False, Extensions := []\<rparr>"
  let ?ok = "\<not> fault w (ticks w)"
  let ?w' = "w\<lparr>ticks := Suc (ticks w), trace := trace w @ [EvWriteRTP trackLocal ?q ?ok]\<rparr>"
  have step: "ingest_packet trackLocal rtpPkt buf w = (if ?ok then Some ?q else None, ?w')"
    using assms by (simp add: ingest_packet_def WriteRTP_def lib_call_def Let_def)
  have loop: "ingest trackLocal rtpPkt (ReadOk buf # rest) w =
             (if ?ok then ingest trackLocal ?q rest ?w' else ?w')"
    by (simp add: step)
  have "trace ?w' = trace w @ [EvWriteRTP trackLocal ?q ?ok]" by simp
  moreover have "Extension ?q = False \<and> Extensions ?q = [] \<and>
           Version ?q = Version p \<and> Padding ?q = Padding p \<and> Marker ?q = Marker p \<and>
           PayloadType ?q = PayloadType p \<and> SequenceNumber ?q = SequenceNumber p \<and>
           Timestamp ?q = Timestamp p \<and> SSRC ?q = SSRC p \<and> CSRC ?q = CSRC p \<and>
           ExtensionProfile ?q = ExtensionProfile p \<and> Payload ?q = Payload p \<and>
           PaddingSize ?q = PaddingSize p" by simp
  ultimately show ?thesis using step loop by blast
qed

theorem ingest_strips_extensions_witness:
  "rtp_Unmarshal (lib join_world) [9, 8, 7] zero_packet =
     Some (zero_packet\<lparr>Version := 2, Extension := True, SequenceNumber := 9,
                        ExtensionProfile := 48862, Extensions := [(1, [7])], Payload := [8, 7]\<rparr>) \<and>
   (\<exists>q. trace (ingest (forwarding ''t-A'') zero_packet [ReadOk [9, 8, 7]] join_world) =
           [EvWriteRTP (forwarding ''t-A'') q True] \<and>
        Extension q = False \<and> Extensions q = [] \<and> Version q = 2 \<and> SequenceNumber q = 9 \<and>
        ExtensionProfile q = 48862 \<and> Payload q = [8, 7])"
proof -
  let ?p = "zero_packet\<lparr>Version := 2, Extension := True, SequenceNumber := 9,
                        ExtensionProfile := 48862, Extensions := [(1, [7])], Payload := [8, 7]\<rparr>"
  have u: "rtp_Unmarshal (lib join_world) [9, 8, 7] zero_packet = Some ?p"
    by (simp add: join_world_def join_library_def calm_world_def deaf_library_def)
  have ok: "\<not> fault join_world (ticks join_world)" and tr0: "trace join_world = []"
    by (simp_all add: join_world_def calm_world_def)
  from ingest_strips_extensions[OF u, of "forwarding ''t-A''" "[]"]
  obtain q ok w' where
    st: "ingest_packet (forwarding ''t-A'') zero_packet [9, 8, 7] join_world =
           (if ok then Some q else None, w')" and
    lp: "ingest (forwarding ''t-A'') zero_packet [ReadOk [9, 8, 7]] join_world =
           (if ok then ingest (forwarding ''t-A'') q [] w' else w')" and
    tr: "trace w' = trace join_world @ [EvWriteRTP (forwarding ''t-A'') q ok]" and
    q: "Extension q = False" "Extensions q = []" "Version q = Version ?p"
       "SequenceNumber q = SequenceNumber ?p"
       "ExtensionProfile q = ExtensionProfile ?p" "Payload q = Payload ?p"
    by blast
  have "fst (ingest_packet (forwarding ''t-A'') zero_packet [9, 8, 7] join_world) \<noteq> None"
    using u ok by (simp add: ingest_packet_def WriteRTP_def lib_call_def Let_def)
  with st have "ok" by (auto split: if_splits)
  with lp tr tr0 have "trace (ingest (forwarding ''t-A'') zero_packet [ReadOk [9, 8, 7]] join_world) =
           [EvWriteRTP (forwarding ''t-A'') q True]"
    by simp
  moreover from q have "Version q = 2" "SequenceNumber q = 9" "ExtensionProfile q = 48862"
      "Payload q = [8, 7]"
    by simp_all
  ultimately show ?thesis using u q(1,2) by blast
qed

lemma handshake_bad:
  "bad_first_message l raw \<Longrightarrow> handshake l raw = None"
  by (auto simp: bad_first_message_def handshake_def split: option.splits)

text \<open>
  C7. When the first message does not unmarshal, has an event other than \<^verbatim>\<open>join\<close>, has
  join data that does not parse, or carries an empty room identifier, the handler
  returns with the registry, the room objects and the peer connections as they were: no
  room was created, no peer record registered, no peer connection constructed.
\<close>

theorem websocketHandler_rejects:
  assumes "bad_first_message (lib w) raw"
  shows "\<exists>w'. websocketHandler c (ReadOk raw # rest) w = Some (Returned w') \<and>
           rooms w' = rooms w \<and> room_heap w' = room_heap w \<and> next_room w' = next_room w \<and>
           pcs w' = pcs w \<and> next_pc w' = next_pc w"
  using handshake_bad[OF assms]
  by (simp add: websocketHandler_def session_def lib_call_def close_ws_def)

theorem websocketHandler_rejects_witness:
  "bad_first_message (lib join_world) [0] \<and> bad_first_message (lib join_world) [2] \<and>
   bad_first_message (lib join_world) [3] \<and> bad_first_message (lib join_world) [4] \<and>
   (\<exists>w'. websocketHandler 9 [ReadOk [0]] join_world = Some (Returned w') \<and> rooms w' = Map.empty \<and> next_pc w' = 0) \<and>
   (\<exists>w'. websocketHandler 9 [ReadOk [2]] join_world = Some (Returned w') \<and> rooms w' = Map.empty \<and> next_pc w' = 0) \<and>
   (\<exists>w'. websocketHandler 9 [ReadOk [3]] join_world = Some (Returned w') \<and> rooms w' = Map.empty \<and> next_pc w' = 0) \<and>
   (\<exists>w'. websocketHandler 9 [ReadOk [4]] join_world = Some (Returned w') \<and> rooms w' = Map.empty \<and> next_pc w' = 0)"
proof -
  have b: "bad_first_message (lib join_world) [0]" "bad_first_message (lib join_world) [2]"
    "bad_first_message (lib join_world) [3]" "bad_first_message (lib join_world) [4]"
    by (simp_all add: bad_first_message_def sample_defs)
  have r: "rooms join_world = Map.empty" "next_pc join_world = 0"
    by (simp_all add: sample_defs)
  from websocketHandler_rejects[OF b(1), of 9 "[]"] websocketHandler_rejects[OF b(2), of 9 "[]"]
    websocketHandler_rejects[OF b(3), of 9 "[]"] websocketHandler_rejects[OF b(4), of 9 "[]"]
  show ?thesis unfolding r using b by blast
qed

text \<open>
  After removePeerFromRoom on a room that is in the registry (and whose lock is free),
  the room identifier is absent from the registry exactly when the room's peer list and
  track map are both empty; the peer list has lost the first record of the peer
  connection, the tracks and the other registry entries are as before.
\<close>

lemma removePeerFromRoom_deletes_iff:
  assumes "rooms w roomID = Some room" and "\<not> locks w room"
  shows "\<exists>w'. removePeerFromRoom roomID peerConnection w = Some w' \<and>
           rooms w' roomID =
             (if PeerConnections (room_heap w' room) = [] \<and> TrackLocals (room_heap w' room) = []
              then None else Some room) \<and>
           PeerConnections (room_heap w' room) =
             remove_first peerConnection (PeerConnections (room_heap w room)) \<and>
           TrackLocals (room_heap w' room) = TrackLocals (room_heap w room) \<and>
           (\<forall>other. other \<noteq> roomID \<longrightarrow> rooms w' other = rooms w other)"
  using assms
  by (simp add: removePeerFromRoom_def Lock_def Unlock_def upd_room_def Let_def)

lemma sync_loop_registry:
  assumes "sync_loop l tls tn sn 0 sl w = (sl', w')"
  shows "registry_frame w w'"
proof -
  have "unat (0 :: 64 word) + 25 = 25" by simp
  from sync_loop_attempts[OF this assms] show ?thesis
  proof
    assume "\<exists>k<25. \<exists>slk wk. attempts tls tn sn k sl w = Some (slk, wk) \<and>
              attemptSync tls tn sn slk wk = (False, sl', w')"
    then obtain k slk wk where "attempts tls tn sn k sl w = Some (slk, wk)"
      "attemptSync tls tn sn slk wk = (False, sl', w')" by blast
    from attempts_frame[OF this(1)] attemptSync_frame[OF this(2)] show ?thesis
      by (simp add: frame_def registry_frame_def)
  next
    assume "\<exists>wn. attempts tls tn sn 25 sl w = Some (sl', wn) \<and>
            w' = wn\<lparr>timers := timers wn @
                   [\<lparr>rs_delay = 3, rs_listLock = l, rs_peerConnections = sl'\<rparr>]\<rparr>"
    then obtain wn where "attempts tls tn sn 25 sl w = Some (sl', wn)"
      "w' = wn\<lparr>timers := timers wn @
                   [\<lparr>rs_delay = 3, rs_listLock = l, rs_peerConnections = sl'\<rparr>]\<rparr>" by blast
    from attempts_frame[OF this(1)] this(2) show ?thesis
      by (simp add: frame_def registry_frame_def)
  qed
qed

lemma SignalPeerConnections_run:
  assumes "\<not> locks w l"
  shows "\<exists>sl w'. SignalPeerConnections l tls ps tn sn w = Some (sl, w') \<and> registry_frame w w'"
proof -
  let ?w1 = "w\<lparr>locks := (locks w)(l := True), trace := trace w @ [EvLock l]\<rparr>"
  have lk: "Lock l w = Some ?w1" using assms by (simp add: Lock_def)
  obtain sl w2 where lp: "sync_loop l tls tn sn 0 \<lparr>sl_array = ps, sl_len = length ps\<rparr> ?w1 = (sl, w2)"
    by fastforce
  note f = sync_loop_registry[OF lp]
  have free: "\<not> locks (Unlock l w2) l" by (simp add: Unlock_def)
  note dk = DispatchKeyFrame_effect[OF free, of "elems sl"]
  let ?w' = "(Unlock l w2)\<lparr>ticks := ticks (Unlock l w2) + length (plis_due (Unlock l w2) (elems sl)),
     trace := trace (Unlock l w2) @ [EvLock l] @
       pli_events (Unlock l w2) (plis_due (Unlock l w2) (elems sl)) @ [EvUnlock l]\<rparr>"
  have res: "SignalPeerConnections l tls ps tn sn w = Some (sl, ?w')"
    by (simp add: SignalPeerConnections_def lk lp dk)
  have "locks w2 = (locks w)(l := True)" using f by (simp add: registry_frame_def)
  then have "(locks w2)(l := False) = locks w" using assms by (auto simp: fun_eq_iff)
  then have "registry_frame w ?w'" using f
    by (simp add: registry_frame_def Unlock_def)
  with res show ?thesis by blast
qed

lemma signal_room_run:
  assumes "\<not> locks w room"
  shows "\<exists>w'. signal_room room w = Some w' \<and> locks w' = locks w \<and> lib w' = lib w \<and>
           rooms w' = rooms w \<and>
           TrackLocals (room_heap w' r) = TrackLocals (room_heap w r) \<and>
           TrackNames (room_heap w' r) = TrackNames (room_heap w r) \<and>
           StreamNames (room_heap w' r) = StreamNames (room_heap w r)"
proof -
  from SignalPeerConnections_run[OF assms] obtain sl w1 where
    "SignalPeerConnections room (TrackLocals (room_heap w room))
       (PeerConnections (room_heap w room)) (TrackNames (room_heap w room))
       (StreamNames (room_heap w room)) w = Some (sl, w1)" "registry_frame w w1"
    by blast
  then show ?thesis
    by (simp add: signal_room_def upd_room_def registry_frame_def)
qed






lemma ingest_frame:
  "room_heap (ingest trk p reads w) = room_heap w \<and> locks (ingest trk p reads w) = locks w"
proof (induction trk p reads w rule: ingest.induct)
  case (1 trackLocal rtpPkt w)
  show ?case by simp
next
  case (2 trackLocal rtpPkt rest w)
  show ?case by simp
next
  case (3 trackLocal rtpPkt buf rest w)
  obtain r w1 where ip: "ingest_packet trackLocal rtpPkt buf w = (r, w1)" by fastforce
  then have f: "room_heap w1 = room_heap w \<and> locks w1 = locks w"
    by (auto simp: ingest_packet_def WriteRTP_def lib_call_def Let_def split: option.splits if_splits)
  show ?case
  proof (cases r)
    case None
    with ip f show ?thesis by simp
  next
    case (Some q)
    with 3[OF ip[symmetric] Some] ip f show ?thesis by simp
  qed
qed


subsection \<open>The two maps of a room\<close>

text \<open>What each section of the OnTrack callback does to \<^verbatim>\<open>TrackNames\<close> and
  \<^verbatim>\<open>TrackLocals\<close>, given that it has returned.\<close>

lemma signal_room_free: "signal_room room w = Some w' \<Longrightarrow> \<not> locks w room"
  by (auto simp: signal_room_def SignalPeerConnections_def Lock_def split: option.splits if_splits)

lemma signal_room_maps:
  assumes "signal_room room w = Some w'"
  shows "same_maps r w w' \<and> locks w' = locks w \<and> rooms w' = rooms w"
proof -
  from signal_room_run[OF signal_room_free[OF assms], of r] assms show ?thesis
    by (auto simp: same_maps_def)
qed
















lemmas room_defs = label_track_def find_owner_def write_labels_def forward_track_def label_local_def
  track_AddTrack_def track_RemoveTrack_def
  unlabel_track_def OnTrack_deferred_def OnTrack_def signal_room_def upd_room_def
  SignalPeerConnections_def Lock_def RLock_def Unlock_def DispatchKeyFrame_def sync_loop.simps
  put_def delete_def Let_def

lemmas run_defs = advance_def start_track_def same_maps_def summary_def WriteRTCP_def




text \<open>
  The identifiers have to be different. When Alice and Bob upload under the same
  identifier and Alice's callback deletes its labels before Bob's callback writes its
  own, and removes its forwarding track after Bob's callback has inserted its own, Bob's
  label is left without a track while his ingest loop runs.
\<close>

lemma same_identifier_run:
  "\<not> distinct (arrivals same_identifier) \<and>
   summary 0 (run 0 same_identifier ([], open_room)) =
     Some ([Finished, Ingesting (forwarding ''audio'')], [''audio''], []) \<and>
   \<not> labels_have_tracks (room_heap (snd (the (run 0 same_identifier ([], open_room)))) 0)"
  by (simp add: same_identifier_def run_defs room_defs sync_defs sample_defs labels_have_tracks_def)

text \<open>The sections, one after the other and with the ingest loop in its place, are the
  callback.\<close>

lemma OnTrack_sections:
  "OnTrack room pc t reads w =
     Option.bind (advance room \<lparr>up_conn = pc, up_track = t, up_phase = Arrived\<rparr> w) (\<lambda>(u1, w1).
     Option.bind (advance room u1 w1) (\<lambda>(u2, w2).
     Option.bind (advance room u2 w2) (\<lambda>(u3, w3).
     Option.bind (advance room u3 w3) (\<lambda>(u4, w4).
       case up_phase u4 of
         Ingesting trackLocal \<Rightarrow>
           Option.bind (advance room u4 (ingest trackLocal zero_packet reads w4)) (\<lambda>(u5, w5).
             map_option snd (advance room u5 w5))
       | _ \<Rightarrow> None))))"
  by (auto simp: OnTrack_def label_track_def forward_track_def OnTrack_deferred_def advance_def
      option.map_comp comp_def option.map_ident split: option.splits Option.bind_splits)

text \<open>
  The label of lines 348 to 355 has no counterpart in the deferred function: were a
  forwarding track identified otherwise than its inbound track (the case those lines
  provide for), its label would outlive it.
\<close>

lemma local_label_outlives_track:
  "label_local 0 (remote ''t-A'' 5) (forwarding ''fwd-1'') ''Alice'' open_room \<noteq> None \<and>
   OnTrack_deferred 0 (remote ''t-A'' 5) (forwarding ''fwd-1'')
     (the (label_local 0 (remote ''t-A'' 5) (forwarding ''fwd-1'') ''Alice'' open_room)) \<noteq> None \<and>
   TrackNames (room_heap (the (OnTrack_deferred 0 (remote ''t-A'' 5) (forwarding ''fwd-1'')
     (the (label_local 0 (remote ''t-A'' 5) (forwarding ''fwd-1'') ''Alice'' open_room)))) 0) =
     [(''fwd-1'', ''Alice'')] \<and>
   TrackLocals (room_heap (the (OnTrack_deferred 0 (remote ''t-A'' 5) (forwarding ''fwd-1'')
     (the (label_local 0 (remote ''t-A'' 5) (forwarding ''fwd-1'') ''Alice'' open_room)))) 0) = []"
  by (simp add: room_defs sync_defs sample_defs)

subsection \<open>The record of a peer\<close>





















lemma read_loop_frame:
  "read_loop pc m frames w = (b, w') \<Longrightarrow>
   room_heap w' = room_heap w \<and> locks w' = locks w \<and> rooms w' = rooms w"
proof (induction pc m frames w rule: read_loop.induct)
  case (1 peerConnection message w)
  then show ?case by simp
next
  case (2 peerConnection message rest w)
  then show ?case by simp
next
  case (3 peerConnection message raw rest w)
  show ?case
  proof (cases "unmarshal_message (lib w) raw message")
    case None
    with "3.prems" show ?thesis by simp
  next
    case (Some m')
    show ?thesis
    proof (cases "Event m' = ''candidate''")
      case True
      show ?thesis
      proof (cases "unmarshal_candidate (lib w) (Data m')")
        case None
        with "3.prems" Some True show ?thesis by simp
      next
        case c: (Some candidate)
        obtain e w1 where a: "AddICECandidate peerConnection candidate w = (e, w1)" by fastforce
        then have f: "room_heap w1 = room_heap w \<and> locks w1 = locks w \<and> rooms w1 = rooms w"
          by (auto simp: AddICECandidate_def lib_call_def set_pc_def split: if_splits)
        show ?thesis
        proof (cases e)
          case True
          with "3.prems" Some \<open>Event m' = ''candidate''\<close> c a f show ?thesis by simp
        next
          case False
          with "3.prems" Some True c a have "read_loop peerConnection m' rest w1 = (b, w')" by simp
          from "3.IH"(1)[OF Some True c a[symmetric] False this] f show ?thesis by simp
        qed
      qed
    next
      case nc: False
      show ?thesis
      proof (cases "Event m' = ''answer''")
        case True
        show ?thesis
        proof (cases "unmarshal_answer (lib w) (Data m')")
          case None
          with "3.prems" Some nc True show ?thesis by simp
        next
          case an: (Some answer)
          obtain e w1 where a: "SetRemoteDescription peerConnection answer w = (e, w1)" by fastforce
          then have f: "room_heap w1 = room_heap w \<and> locks w1 = locks w \<and> rooms w1 = rooms w"
            by (auto simp: SetRemoteDescription_def lib_call_def set_pc_def split: if_splits)
          show ?thesis
          proof (cases e)
            case e: True
            with "3.prems" Some nc True an a f show ?thesis by simp
          next
            case False
            with "3.prems" Some nc True an a have "read_loop peerConnection m' rest w1 = (b, w')"
              by simp
            from "3.IH"(2)[OF Some nc True an a[symmetric] False this] f show ?thesis by simp
          qed
        qed
      next
        case False
        with "3.prems" Some nc have "read_loop peerConnection m' rest w = (b, w')" by simp
        from "3.IH"(3)[OF Some nc False this] show ?thesis .
      qed
    qed
  qed
qed

lemma enter_registered:
  assumes "enter c roomID userName w = (Registered room pc, w1)"
  shows "pc = next_pc w \<and> \<not> locks w1 room \<and> rooms w1 roomID = Some room \<and>
         ConnectionState (pcs w1 pc) = PeerConnectionStateNew \<and>
         PeerConnections (room_heap w1 room) =
           (case rooms w roomID of None \<Rightarrow> [] | Some room0 \<Rightarrow> PeerConnections (room_heap w room0)) @
           [\<lparr>PeerConnection = pc, Websocket = c, Name = userName\<rparr>]"
  using assms
  by (auto simp: enter_def getOrCreateRoom_def NewPeerConnection_def AddTransceiverFromKind_def
      register_peer_def lib_call_def set_pc_def Lock_def Unlock_def upd_room_def
      split: option.splits if_splits prod.splits)



lemmas handler_defs = websocketHandler_def session_def handshake_def joined_def enter_def
  getOrCreateRoom_def NewPeerConnection_def AddTransceiverFromKind_def register_peer_def
  leave_def hang_up_def removePeerFromRoom_def Close_def close_ws_def
  joined_world_def dave_world_def


subsection \<open>The end of a session\<close>

text \<open>A handler that waits in its read loop returns through \<open>hang_up\<close> when the next
  read fails.\<close>

lemma read_loop_hang_up:
  "read_loop pc m frames w = (False, w1) \<Longrightarrow> read_loop pc m (frames @ [ReadError]) w = (True, w1)"
proof (induction pc m frames w rule: read_loop.induct)
  case (1 peerConnection message w)
  then show ?case by simp
next
  case (2 peerConnection message rest w)
  then show ?case by simp
next
  case (3 peerConnection message raw rest w)
  then show ?case
    by (auto split: option.splits if_splits prod.splits)
qed

lemma websocketHandler_hang_up:
  assumes "websocketHandler c frames w = Some (Reading room pc w1)"
  shows "\<exists>roomID. rooms w1 roomID = Some room \<and>
           websocketHandler c (frames @ [ReadError]) w = map_option Returned (hang_up c roomID pc w1)"
proof -
  let ?w0 = "w\<lparr>ticks := Suc (ticks w)\<rparr>"
  from assms have s: "session c frames ?w0 = Some (Reading room pc w1)" and up: "\<not> fault w (ticks w)"
    by (auto simp: websocketHandler_def lib_call_def split: if_splits option.splits outcome.splits)
  then obtain raw rest roomID userName m where fr: "frames = ReadOk raw # rest"
    and hs: "handshake (lib w) raw = Some (roomID, userName, m)"
    and j: "joined c roomID userName m rest ?w0 = Some (Reading room pc w1)"
    by (auto simp: session_def split: list.splits read.splits option.splits)
  then obtain wa wb where e: "enter c roomID userName ?w0 = (Registered room pc, wa)"
    and sg: "signal_room room wa = Some wb"
    and rl: "read_loop pc m rest wb = (False, w1)"
    by (auto simp: joined_def split: prod.splits entry.splits option.splits bool.splits if_splits)
  from enter_registered[OF e] signal_room_maps[OF sg, of room] read_loop_frame[OF rl]
  have r1: "rooms w1 roomID = Some room" by simp
  from read_loop_hang_up[OF rl] e sg
  have "joined c roomID userName m (rest @ [ReadError]) ?w0 = map_option Returned (leave roomID pc w1)"
    by (simp add: joined_def)
  with hs fr up
  have "websocketHandler c (frames @ [ReadError]) w = map_option Returned (hang_up c roomID pc w1)"
    by (cases "leave roomID pc w1")
       (simp_all add: websocketHandler_def lib_call_def session_def hang_up_def)
  with r1 show ?thesis by blast
qed

lemmas schedule_defs = upload_running_def handler_returns_first_def callback_returns_first_def
  room_state_def

text \<open>
  C4, the code at the failing input. A client joins the room \<^verbatim>\<open>r2\<close>, which is created for
  it, and uploads the track \<^verbatim>\<open>t-C\<close>; its callback reaches the ingest loop. Then the
  websocket fails. When the handler's deferred function (Close, then removePeerFromRoom)
  runs before the callback has left its loop and removed the forwarding track, it finds
  the track still in the map and leaves the room in the registry; the callback then
  removes the track, and the room stays registered with no peer and no track although
  the session and the callback are over. When the callback is first, removePeerFromRoom
  deletes the room.
\<close>

theorem room_outlives_peers_and_tracks:
  "websocketHandler 9 [ReadOk [1]] join_world = Some (Reading 0 0 joined_world) \<and>
   room_state ''r2'' 0 (run 0 upload_running ([], joined_world)) =
     Some (Some 0, [\<lparr>PeerConnection = 0, Websocket = 9, Name = ''Anonymous''\<rparr>], [''t-C''],
           [Ingesting (forwarding ''t-C'')]) \<and>
   room_state ''r2'' 0 (run 0 handler_returns_first ([], joined_world)) =
     Some (Some 0, [], [], [Finished]) \<and>
   room_state ''r2'' 0 (run 0 callback_returns_first ([], joined_world)) =
     Some (None, [], [], [Finished])"
  by (simp add: schedule_defs handler_defs room_defs run_defs sync_defs sample_defs)

subsection \<open>Other code\<close>

text \<open>The handler, its deferred function, the synchroniser, the keyframe dispatch, the
  connection state callback and the ingest loop leave \<^verbatim>\<open>TrackNames\<close> and
  \<^verbatim>\<open>TrackLocals\<close> of every room that exists as they are: in a schedule they are other
  code.\<close>

lemma same_maps_refl: "same_maps room w w"
  by (simp add: same_maps_def)

lemma same_maps_trans: "same_maps room w w1 \<Longrightarrow> same_maps room w1 w2 \<Longrightarrow> same_maps room w w2"
  by (simp add: same_maps_def)

lemma leave_maps: "leave roomID pc w = Some w' \<Longrightarrow> same_maps room w w'"
  by (auto simp: leave_def removePeerFromRoom_def Close_def lib_call_def set_pc_def
      Lock_def Unlock_def upd_room_def same_maps_def Let_def split: option.splits if_splits)

lemma hang_up_maps: "hang_up c roomID pc w = Some w' \<Longrightarrow> same_maps room w w'"
  by (auto simp: hang_up_def close_ws_def same_maps_def dest!: leave_maps[of _ _ _ _ room])

lemma DispatchKeyFrame_maps:
  assumes "DispatchKeyFrame l ps w = Some w'"
  shows "same_maps room w w'"
proof -
  from assms have "\<not> locks w l"
    by (auto simp: DispatchKeyFrame_def Lock_def split: if_splits)
  from DispatchKeyFrame_effect[OF this, of ps] assms show ?thesis
    by (auto simp: same_maps_def)
qed

lemma OnConnectionStateChange_maps:
  "OnConnectionStateChange r pc p w = Some w' \<Longrightarrow> same_maps room w w'"
  by (auto simp: OnConnectionStateChange_def Close_def lib_call_def set_pc_def same_maps_def
      split: if_splits dest!: signal_room_maps[of _ _ _ room])

lemma ingest_maps: "same_maps room w (ingest trackLocal p reads w)"
  using ingest_frame[of trackLocal p reads w] by (simp add: same_maps_def)

lemma enter_maps:
  "enter c roomID userName w = (e, w') \<Longrightarrow> room < next_room w \<Longrightarrow> same_maps room w w'"
  by (auto simp: enter_def getOrCreateRoom_def NewPeerConnection_def AddTransceiverFromKind_def
      register_peer_def lib_call_def set_pc_def Lock_def Unlock_def upd_room_def same_maps_def
      split: option.splits if_splits prod.splits)

lemma joined_maps:
  assumes "joined c roomID userName m frames w = Some out" and "room < next_room w"
  shows "same_maps room w (world_of out)"
proof -
  obtain e w1 where en: "enter c roomID userName w = (e, w1)" by fastforce
  note m1 = enter_maps[OF en assms(2)]
  show ?thesis
  proof (cases e)
    case NoPeerConnection
    with assms(1) en m1 show ?thesis by (auto simp: joined_def)
  next
    case (NoTransceiver pc)
    with assms(1) en obtain w2 where "leave roomID pc w1 = Some w2" "out = Returned w2"
      by (auto simp: joined_def)
    with same_maps_trans[OF m1 leave_maps] show ?thesis by simp
  next
    case Stuck
    with assms(1) en show ?thesis by (simp add: joined_def)
  next
    case (Registered r pc)
    with assms(1) en obtain w2 b w3 where sg: "signal_room r w1 = Some w2"
      and rl: "read_loop pc m frames w2 = (b, w3)"
      and out: "if b then map_option Returned (leave roomID pc w3) = Some out
                else out = Reading r pc w3"
      by (auto simp: joined_def split: option.splits prod.splits bool.splits)
    from signal_room_maps[OF sg, of room] have m2: "same_maps room w1 w2" by simp
    from read_loop_frame[OF rl] have m3: "same_maps room w2 w3" by (simp add: same_maps_def)
    note m = same_maps_trans[OF m1 same_maps_trans[OF m2 m3]]
    show ?thesis
    proof (cases b)
      case True
      with out obtain w4 where "leave roomID pc w3 = Some w4" "out = Returned w4" by auto
      with same_maps_trans[OF m leave_maps] show ?thesis by simp
    next
      case False
      with out m show ?thesis by simp
    qed
  qed
qed

lemma websocketHandler_maps:
  assumes "websocketHandler c frames w = Some out" and "room < next_room w"
  shows "same_maps room w (world_of out)"
proof -
  let ?w0 = "w\<lparr>ticks := Suc (ticks w)\<rparr>"
  have m0: "same_maps room w ?w0" by (simp add: same_maps_def)
  show ?thesis
  proof (cases "fault w (ticks w)")
    case True
    with assms(1) m0 show ?thesis by (auto simp: websocketHandler_def lib_call_def)
  next
    case False
    with assms(1) obtain out1 where s: "session c frames ?w0 = Some out1"
      and o: "world_of out = world_of out1 \<or> world_of out = close_ws c (world_of out1)"
      by (auto simp: websocketHandler_def lib_call_def split: option.splits outcome.splits)
    have "same_maps room ?w0 (world_of out1)"
    proof (cases "\<exists>raw rest roomID userName m. frames = ReadOk raw # rest \<and>
        handshake (lib ?w0) raw = Some (roomID, userName, m)")
      case True
      then obtain raw rest roomID userName m where "frames = ReadOk raw # rest"
        "handshake (lib ?w0) raw = Some (roomID, userName, m)" by blast
      with s have "joined c roomID userName m rest ?w0 = Some out1" by (simp add: session_def)
      from joined_maps[OF this] assms(2) show ?thesis by simp
    next
      case False
      with s have "world_of out1 = ?w0"
        by (auto simp: session_def split: list.splits read.splits option.splits)
      then show ?thesis by (simp add: same_maps_def)
    qed
    with o m0 show ?thesis by (auto simp: same_maps_def close_ws_def)
  qed
qed

end
